theory Spec2Isabelle
  imports Main
begin

section \<open>JavaScript values and repository records\<close>

text \<open>
  The collection script \<^verbatim>\<open>src/index.js\<close> works on plain JavaScript objects, one per
  repository, to which every collector attaches attributes. A number is a count here
  (a length, a parsed digit string, a header value), so the finite numbers are
  integers; \<open>NaN\<close> is what the unary plus yields on text that is no number.
\<close>

datatype jsnum = NaN | Num int

datatype jsval =
    JUndefined
  | JNull
  | JBool bool
  | JNum jsnum
  | JStr string
  | JArr "jsval list"
  | JObj "(string \<times> jsval) list"

text \<open>Truthiness, as \<^verbatim>\<open>if (x)\<close>, \<^verbatim>\<open>x && y\<close> and \<^verbatim>\<open>filter(x => x.a)\<close> use it.\<close>

fun truthy :: "jsval \<Rightarrow> bool" where
  "truthy JUndefined = False"
| "truthy JNull = False"
| "truthy (JBool b) = b"
| "truthy (JNum NaN) = False"
| "truthy (JNum (Num n)) = (n \<noteq> 0)"
| "truthy (JStr s) = (s \<noteq> [])"
| "truthy (JArr xs) = True"
| "truthy (JObj kvs) = True"

text \<open>
  A record is the map of its own properties: \<open>r k = None\<close> when the object has no
  property \<open>k\<close> (\<^verbatim>\<open>hasOwnProperty\<close> is false), \<open>r k = Some JUndefined\<close> when the
  property exists and holds \<^verbatim>\<open>undefined\<close>.
\<close>

type_synonym repo = "string \<rightharpoonup> jsval"

definition hasOwnProperty :: "repo \<Rightarrow> string \<Rightarrow> bool" where
  "hasOwnProperty r k = (r k \<noteq> None)"

text \<open>Reading \<^verbatim>\<open>repo.k\<close>: a missing property reads as \<^verbatim>\<open>undefined\<close>.\<close>

definition getp :: "repo \<Rightarrow> string \<Rightarrow> jsval" where
  "getp r k = (case r k of None \<Rightarrow> JUndefined | Some v \<Rightarrow> v)"

text \<open>Reading a key of an object value; its keys are distinct, as parsed JSON has them.\<close>

fun lookup :: "(string \<times> jsval) list \<Rightarrow> string \<Rightarrow> jsval" where
  "lookup [] k = JUndefined"
| "lookup ((k', v) # kvs) k = (if k' = k then v else lookup kvs k)"

text \<open>
  The operators of the language the script uses on values. \<open>js_length\<close> is the
  \<^verbatim>\<open>length\<close> property of a value that is neither \<^verbatim>\<open>undefined\<close> nor \<^verbatim>\<open>null\<close>.
  \<open>strict_eq\<close> is \<^verbatim>\<open>===\<close>: \<open>NaN\<close> equals nothing, and an array or an object equals
  only itself, so the first argument says whether both values were read from the same
  object (two records never share an array or an object).
\<close>

fun js_length :: "jsval \<Rightarrow> jsval" where
  "js_length (JArr xs) = JNum (Num (int (length xs)))"
| "js_length (JStr s) = JNum (Num (int (length s)))"
| "js_length (JObj kvs) = lookup kvs ''length''"
| "js_length v = JUndefined"

fun strict_eq :: "bool \<Rightarrow> jsval \<Rightarrow> jsval \<Rightarrow> bool" where
  "strict_eq same (JNum NaN) b = False"
| "strict_eq same (JArr xs) b = (same \<and> b = JArr xs)"
| "strict_eq same (JObj kvs) b = (same \<and> b = JObj kvs)"
| "strict_eq same a b = (a = b)"

fun js_add :: "jsnum \<Rightarrow> jsnum \<Rightarrow> jsnum" where
  "js_add (Num a) (Num b) = Num (a + b)"
| "js_add a b = NaN"

fun positive :: "jsnum \<Rightarrow> bool" where
  "positive (Num n) = (0 < n)"
| "positive NaN = False"

text \<open>\<^verbatim>\<open>s.replace(pat, rep)\<close> with a string pattern replaces the first occurrence.\<close>

fun replace_first :: "string \<Rightarrow> string \<Rightarrow> string \<Rightarrow> string" where
  "replace_first pat rep [] = (if pat = [] then rep else [])"
| "replace_first pat rep (c # cs) =
     (if take (length pat) (c # cs) = pat then rep @ drop (length pat) (c # cs)
      else c # replace_first pat rep cs)"

text \<open>
  \<^verbatim>\<open>s.split(sep)[1]\<close> for a non-empty separator: the text between the first and the
  second occurrence of \<open>sep\<close>, and \<^verbatim>\<open>undefined\<close> when \<open>sep\<close> does not occur.
\<close>

fun before_first :: "string \<Rightarrow> string \<Rightarrow> string" where
  "before_first sep [] = []"
| "before_first sep (c # cs) =
     (if take (length sep) (c # cs) = sep then [] else c # before_first sep cs)"

fun after_first :: "string \<Rightarrow> string \<Rightarrow> string option" where
  "after_first sep [] = None"
| "after_first sep (c # cs) =
     (if take (length sep) (c # cs) = sep then Some (drop (length sep) (c # cs))
      else after_first sep cs)"

definition split_second :: "string \<Rightarrow> string \<Rightarrow> jsval" where
  "split_second sep s =
     (case after_first sep s of None \<Rightarrow> JUndefined | Some rest \<Rightarrow> JStr (before_first sep rest))"

section \<open>Errors, requests and the outside world\<close>

datatype http_method = GET | HEAD

text \<open>
  What the script can throw: a rejected \<^verbatim>\<open>fetch\<close>, a bare status thrown inside the
  existence probe, the \<^verbatim>\<open>Error\<close> a collector raises on an unexpected status, the
  \<^verbatim>\<open>AggregateError\<close> of \<^verbatim>\<open>Promise.any\<close>, a \<^verbatim>\<open>TypeError\<close> of the runtime, and the
  request error of the API client with its status, if it has one.
\<close>

datatype error =
    FetchFailure
  | ThrownStatus nat
  | UnexpectedStatus nat http_method jsval
  | AggregateError "error list"
  | TypeError
  | ApiError "nat option"

record response =
  status :: nat
  landed_url :: string
  content_length :: "string option"
  body :: string

text \<open>
  The calls of the API client the script makes: the repository search with its query
  and sort order, and four endpoints of one repository, given by owner and name.
\<close>

datatype api_call =
    ApiSearchRepositories string string
  | ApiCommunityProfileMetrics jsval jsval
  | ApiListLanguages jsval jsval
  | ApiListDeployments jsval jsval
  | ApiAllEnvironments jsval jsval

datatype request = Fetch http_method jsval | ApiCall api_call

text \<open>
  The network and the libraries are parameters. \<open>net\<close> and \<open>api\<close> answer a request
  from the number of requests issued before it, so the same request can be answered
  differently at different times; \<open>net\<close> gives \<open>None\<close> when \<^verbatim>\<open>fetch\<close> rejects, and
  \<open>api\<close> gives \<open>Inl\<close> the status of the request error the client throws once its own
  retries are over. \<open>settle_order\<close> is the order in which the promises
  of one probe settle. The remaining fields are library functions the script calls:
  the number conversion of the unary plus, the string conversion of a template
  literal, \<^verbatim>\<open>trim\<close>, the selectors of the page parser, the clock of the dataset
  writer, and the quotient of a byte count by the sum of all byte counts.
\<close>

record env =
  net :: "nat \<Rightarrow> http_method \<Rightarrow> jsval \<Rightarrow> response option"
  api :: "nat \<Rightarrow> api_call \<Rightarrow> nat option + jsval"
  settle_order :: "nat \<Rightarrow> nat \<Rightarrow> nat list"
  toNumber :: "string \<Rightarrow> jsnum"
  toStr :: "jsval \<Rightarrow> string"
  trim :: "string \<Rightarrow> string"
  select_html :: "string \<Rightarrow> string \<Rightarrow> string option"
  select_text :: "string \<Rightarrow> string \<Rightarrow> string"
  select_length :: "string \<Rightarrow> string \<Rightarrow> nat"
  seconds_since :: "jsval \<Rightarrow> jsval"
  ratio :: "jsval \<Rightarrow> jsval list \<Rightarrow> jsval"

text \<open>The requests issued so far, oldest first.\<close>

type_synonym world = "request list"

definition fetch :: "env \<Rightarrow> jsval \<Rightarrow> http_method \<Rightarrow> world \<Rightarrow> (error + response) \<times> world" where
  "fetch E url m w =
     ((case net E (length w) m url of None \<Rightarrow> Inl FetchFailure | Some resp \<Rightarrow> Inr resp),
      w @ [Fetch m url])"

text \<open>\<^verbatim>\<open>fetch(url, { method }).catch(() => fetch(url, { method }))\<close>: one retry.\<close>

definition fetchWithRetryAndLogging ::
  "env \<Rightarrow> jsval \<Rightarrow> http_method \<Rightarrow> world \<Rightarrow> (error + response) \<times> world" where
  "fetchWithRetryAndLogging E url m w =
     (case fetch E url m w of
        (Inr resp, w') \<Rightarrow> (Inr resp, w')
      | (Inl e, w') \<Rightarrow> fetch E url m w')"

text \<open>
  A call of the API client is one request of the world, whatever pages and retries
  the client makes of it; it gives the data of the response or throws.
\<close>

definition octokit :: "env \<Rightarrow> api_call \<Rightarrow> world \<Rightarrow> (error + jsval) \<times> world" where
  "octokit E c w =
     ((case api E (length w) c of Inl st \<Rightarrow> Inl (ApiError st) | Inr data \<Rightarrow> Inr data),
      w @ [ApiCall c])"

section \<open>The existence probe\<close>

text \<open>
  \<^verbatim>\<open>Promise.any\<close> over promises whose outcomes are \<open>os\<close>, settling in the order
  \<open>sched\<close> (indices into \<open>os\<close>): the first fulfilment met resolves it, and once all
  have rejected it rejects with the reasons in the order of the input.
\<close>

fun rejections :: "(error + 'a) list \<Rightarrow> error list" where
  "rejections [] = []"
| "rejections (Inl e # os) = e # rejections os"
| "rejections (Inr v # os) = rejections os"

fun promise_any :: "nat list \<Rightarrow> (error + 'a) list \<Rightarrow> error + 'a" where
  "promise_any [] os = Inl (AggregateError (rejections os))"
| "promise_any (i # sched) os =
     (if i < length os
      then (case os ! i of Inr v \<Rightarrow> Inr v | Inl e \<Rightarrow> promise_any sched os)
      else promise_any sched os)"

text \<open>The \<^verbatim>\<open>then\<close> handler of one candidate: found, or throw the status.\<close>

definition found_or_throw :: "error + response \<Rightarrow> error + bool" where
  "found_or_throw x =
     (case x of
        Inl e \<Rightarrow> Inl e
      | Inr resp \<Rightarrow> if status resp = 200 then Inr True else Inl (ThrownStatus (status resp)))"

text \<open>\<^verbatim>\<open>urls.map(url => fetchWithRetryAndLogging(url, 'HEAD'))\<close>, candidate by candidate.\<close>

fun head_checks :: "env \<Rightarrow> jsval list \<Rightarrow> world \<Rightarrow> (error + response) list \<times> world" where
  "head_checks E [] w = ([], w)"
| "head_checks E (url # urls) w =
     (case fetchWithRetryAndLogging E url HEAD w of
        (x, w') \<Rightarrow> (case head_checks E urls w' of (xs, w'') \<Rightarrow> (x # xs, w'')))"

text \<open>The \<^verbatim>\<open>catch\<close> handler: all 404 means absent, anything else is rethrown.\<close>

definition all_not_found :: "error + bool \<Rightarrow> error + bool" where
  "all_not_found x =
     (case x of
        Inr v \<Rightarrow> Inr v
      | Inl (AggregateError errors) \<Rightarrow>
          if list_all (\<lambda>e. e = ThrownStatus 404) errors then Inr False
          else Inl (AggregateError errors)
      | Inl e \<Rightarrow> Inl e)"

definition doesAnyFileExist :: "env \<Rightarrow> jsval list \<Rightarrow> world \<Rightarrow> (error + bool) \<times> world" where
  "doesAnyFileExist E urls w =
     (case head_checks E urls w of
        (xs, w') \<Rightarrow>
          (all_not_found
             (promise_any (settle_order E (length w) (length urls)) (map found_or_throw xs)),
           w'))"

section \<open>Attribute collectors\<close>

text \<open>
  Every collector is \<^verbatim>\<open>for (const repo of listOfRepos) { ... }\<close> over objects it
  changes in place. The body of the loop is a function from the record and the world
  to the error thrown (if any), the record as the body left it, and the world. A
  throw ends the loop; what was assigned before the throw stays assigned.
\<close>

type_synonym step = "repo \<Rightarrow> world \<Rightarrow> error option \<times> repo \<times> world"

fun for_each_repo :: "step \<Rightarrow> repo list \<Rightarrow> world \<Rightarrow> error option \<times> repo list \<times> world" where
  "for_each_repo f [] w = (None, [], w)"
| "for_each_repo f (r # rs) w =
     (case f r w of
        (Some e, r', w') \<Rightarrow> (Some e, r' # rs, w')
      | (None, r', w') \<Rightarrow>
          (case for_each_repo f rs w' of (e, rs', w'') \<Rightarrow> (e, r' # rs', w'')))"

text \<open>\<^verbatim>\<open>v.k\<close> on a value of the API: \<^verbatim>\<open>undefined\<close> and \<^verbatim>\<open>null\<close> have no properties.\<close>

fun js_member :: "jsval \<Rightarrow> string \<Rightarrow> error + jsval" where
  "js_member JUndefined k = Inl TypeError"
| "js_member JNull k = Inl TypeError"
| "js_member (JObj kvs) k = Inr (lookup kvs k)"
| "js_member v k = Inr JUndefined"

text \<open>The number a value converts to in \<^verbatim>\<open>v > 0\<close>.\<close>

fun to_number :: "env \<Rightarrow> jsval \<Rightarrow> jsnum" where
  "to_number E JUndefined = NaN"
| "to_number E JNull = Num 0"
| "to_number E (JBool b) = Num (if b then 1 else 0)"
| "to_number E (JNum n) = n"
| "to_number E (JStr s) = toNumber E s"
| "to_number E v = toNumber E (toStr E v)"

definition repo_path :: "env \<Rightarrow> repo \<Rightarrow> string" where
  "repo_path E r = toStr E (getp r ''owner'') @ ''/'' @ toStr E (getp r ''repo'')"

definition landing_page :: "env \<Rightarrow> repo \<Rightarrow> jsval" where
  "landing_page E r = JStr (''https://www.github.com/'' @ repo_path E r)"

definition contributors_link :: "env \<Rightarrow> repo \<Rightarrow> string" where
  "contributors_link E r = ''a[href=\"/'' @ repo_path E r @ ''/graphs/contributors\"] > span''"

text \<open>
  \<^verbatim>\<open>$(sel).html()\<close> is \<^verbatim>\<open>null\<close> when nothing matches the selector, so \<^verbatim>\<open>.trim()\<close> throws
  and the \<^verbatim>\<open>catch\<close> assigns 1.
\<close>

definition getContributorCounts_repo :: "env \<Rightarrow> step" where
  "getContributorCounts_repo E r w =
     (if hasOwnProperty r ''contributor_count'' then (None, r, w)
      else
        let url = landing_page E r in
        (case fetchWithRetryAndLogging E url GET w of
           (Inl e, w') \<Rightarrow> (Some e, r, w')
         | (Inr resp, w') \<Rightarrow>
             if status resp \<noteq> 200 then (Some (UnexpectedStatus (status resp) GET url), r, w')
             else
               (case select_html E (body resp) (contributors_link E r) of
                  Some h \<Rightarrow> (None, r(''contributor_count'' \<mapsto> JNum (toNumber E (trim E h))), w')
                | None \<Rightarrow> (None, r(''contributor_count'' \<mapsto> JNum (Num 1)), w'))))"

definition getContributorCounts :: "env \<Rightarrow> repo list \<Rightarrow> world \<Rightarrow> error option \<times> repo list \<times> world" where
  "getContributorCounts E = for_each_repo (getContributorCounts_repo E)"

definition getReadmeLengths_repo :: "env \<Rightarrow> step" where
  "getReadmeLengths_repo E r w =
     (if hasOwnProperty r ''readme_size'' then (None, r, w)
      else
        (case fetchWithRetryAndLogging E (getp r ''rawReadmeUrl'') HEAD w of
           (Inl e, w') \<Rightarrow> (None, r(''readme_size'' \<mapsto> JNum (Num 0)), w')
         | (Inr resp, w') \<Rightarrow>
             if status resp \<noteq> 200 then (None, r(''readme_size'' \<mapsto> JNum (Num 0)), w')
             else
               (None,
                r(''readme_size'' \<mapsto>
                    JNum (case content_length resp of None \<Rightarrow> Num 0 | Some s \<Rightarrow> toNumber E s)),
                w')))"

definition getReadmeLengths :: "env \<Rightarrow> repo list \<Rightarrow> world \<Rightarrow> error option \<times> repo list \<times> world" where
  "getReadmeLengths E = for_each_repo (getReadmeLengths_repo E)"

text \<open>
  The part of \<^verbatim>\<open>getCommunityProfileMetrics\<close> after the four flags are assigned: the
  raw location of the README, or size zero when the profile names no README.
\<close>

definition readme_location :: "env \<Rightarrow> jsval \<Rightarrow> repo \<Rightarrow> error option \<times> repo" where
  "readme_location E files_v r =
     (let readme = lookup (case files_v of JObj kvs \<Rightarrow> kvs | _ \<Rightarrow> []) ''readme'' in
      if truthy readme then
        (case js_member readme ''html_url'' of
           Inr (JStr providedReadmeHtmlUrl) \<Rightarrow>
             (None,
              r(''rawReadmeUrl'' \<mapsto>
                  JStr (''https://raw.githubusercontent.com/'' @ repo_path E r
                        @ toStr E (split_second ''blob'' providedReadmeHtmlUrl))))
         | _ \<Rightarrow> (Some TypeError, r))
      else (None, r(''readme_size'' \<mapsto> JNum (Num 0))))"

definition getCommunityProfileMetrics_repo :: "env \<Rightarrow> step" where
  "getCommunityProfileMetrics_repo E r w =
     (if hasOwnProperty r ''has_code_of_conduct'' then (None, r, w)
      else
        (case octokit E (ApiCommunityProfileMetrics (getp r ''owner'') (getp r ''repo'')) w of
           (Inl e, w') \<Rightarrow> (Some e, r, w')
         | (Inr data, w') \<Rightarrow>
             (case js_member data ''files'' of
                Inl e \<Rightarrow> (Some e, r, w')
              | Inr files_v \<Rightarrow>
                  (case js_member files_v ''code_of_conduct'' of
                     Inl e \<Rightarrow> (Some e, r, w')
                   | Inr coc \<Rightarrow>
                       let file_of = (\<lambda>k. lookup (case files_v of JObj kvs \<Rightarrow> kvs | _ \<Rightarrow> []) k);
                           r1 = r(''has_code_of_conduct'' \<mapsto>
                                    JBool (truthy coc \<or> truthy (file_of ''code_of_conduct_file'')),
                                  ''has_contributing'' \<mapsto> JBool (truthy (file_of ''contributing'')),
                                  ''has_issue_template'' \<mapsto> JBool (truthy (file_of ''issue_template'')),
                                  ''has_pull_request_template'' \<mapsto>
                                    JBool (truthy (file_of ''pull_request_template'')))
                       in (case readme_location E files_v r1 of (e, r2) \<Rightarrow> (e, r2, w'))))))"

definition getCommunityProfileMetrics ::
  "env \<Rightarrow> repo list \<Rightarrow> world \<Rightarrow> error option \<times> repo list \<times> world" where
  "getCommunityProfileMetrics E = for_each_repo (getCommunityProfileMetrics_repo E)"

definition getLanguages_repo :: "env \<Rightarrow> step" where
  "getLanguages_repo E r w =
     (if hasOwnProperty r ''languages'' then (None, r, w)
      else
        (case octokit E (ApiListLanguages (getp r ''owner'') (getp r ''repo'')) w of
           (Inl e, w') \<Rightarrow> (Some e, r, w')
         | (Inr data, w') \<Rightarrow> (None, r(''languages'' \<mapsto> data), w')))"

definition getLanguages :: "env \<Rightarrow> repo list \<Rightarrow> world \<Rightarrow> error option \<times> repo list \<times> world" where
  "getLanguages E = for_each_repo (getLanguages_repo E)"

text \<open>
  \<^verbatim>\<open>getDeployments\<close>: no request when the record lists no environments. A 502 of the
  listing counts as having deployments; after any other error the attribute stays
  unset. \<^verbatim>\<open>response.data.length > 0\<close> throws on \<^verbatim>\<open>undefined\<close> or \<^verbatim>\<open>null\<close> data, inside
  the same \<^verbatim>\<open>try\<close>.
\<close>

definition getDeployments_repo :: "env \<Rightarrow> step" where
  "getDeployments_repo E r w =
     (if hasOwnProperty r ''has_deployments'' then (None, r, w)
      else if truthy (getp r ''environments'')
              \<and> strict_eq False (js_length (getp r ''environments'')) (JNum (Num 0))
      then (None, r(''has_deployments'' \<mapsto> JBool False), w)
      else
        (case octokit E (ApiListDeployments (getp r ''owner'') (getp r ''repo'')) w of
           (Inl e, w') \<Rightarrow>
             if e = ApiError (Some 502) then (None, r(''has_deployments'' \<mapsto> JBool True), w')
             else (None, r, w')
         | (Inr data, w') \<Rightarrow>
             if data = JUndefined \<or> data = JNull then (None, r, w')
             else
               (None, r(''has_deployments'' \<mapsto> JBool (positive (to_number E (js_length data)))),
                w')))"

definition getDeployments :: "env \<Rightarrow> repo list \<Rightarrow> world \<Rightarrow> error option \<times> repo list \<times> world" where
  "getDeployments E = for_each_repo (getDeployments_repo E)"

text \<open>
  \<^verbatim>\<open>response.data.map(env => env.name)\<close> over the listed environments; the pages of
  the listing are one answer of \<open>api\<close>. It throws when the data is no array or an
  entry is \<^verbatim>\<open>undefined\<close> or \<^verbatim>\<open>null\<close>.
\<close>

fun environment_names :: "jsval list \<Rightarrow> error + jsval list" where
  "environment_names [] = Inr []"
| "environment_names (v # vs) =
     (case js_member v ''name'' of
        Inl e \<Rightarrow> Inl e
      | Inr n \<Rightarrow> (case environment_names vs of Inl e \<Rightarrow> Inl e | Inr ns \<Rightarrow> Inr (n # ns)))"

definition getEnvironments_repo :: "env \<Rightarrow> step" where
  "getEnvironments_repo E r w =
     (if hasOwnProperty r ''environments'' then (None, r, w)
      else
        (case octokit E (ApiAllEnvironments (getp r ''owner'') (getp r ''repo'')) w of
           (Inr (JArr envs), w') \<Rightarrow>
             (case environment_names envs of
                Inr names \<Rightarrow> (None, r(''environments'' \<mapsto> JArr names), w')
              | Inl e \<Rightarrow> (None, r(''environments'' \<mapsto> JArr []), w'))
         | (x, w') \<Rightarrow> (None, r(''environments'' \<mapsto> JArr []), w')))"

definition getEnvironments :: "env \<Rightarrow> repo list \<Rightarrow> world \<Rightarrow> error option \<times> repo list \<times> world" where
  "getEnvironments E = for_each_repo (getEnvironments_repo E)"

definition getReleases_repo :: "env \<Rightarrow> step" where
  "getReleases_repo E r w =
     (if hasOwnProperty r ''has_releases'' then (None, r, w)
      else
        let releasesUrl = ''https://github.com/'' @ repo_path E r @ ''/releases'';
            url = JStr (releasesUrl @ ''/latest'') in
        (case fetchWithRetryAndLogging E url HEAD w of
           (Inl e, w') \<Rightarrow> (Some e, r, w')
         | (Inr resp, w') \<Rightarrow>
             if status resp \<noteq> 200 then (Some (UnexpectedStatus (status resp) HEAD url), r, w')
             else (None, r(''has_releases'' \<mapsto> JBool (landed_url resp \<noteq> releasesUrl)), w')))"

definition getReleases :: "env \<Rightarrow> repo list \<Rightarrow> world \<Rightarrow> error option \<times> repo list \<times> world" where
  "getReleases E = for_each_repo (getReleases_repo E)"

definition getWorkflows_repo :: "env \<Rightarrow> step" where
  "getWorkflows_repo E r w =
     (if hasOwnProperty r ''workflows_count'' then (None, r, w)
      else
        let url = JStr (''https://github.com/'' @ repo_path E r @ ''/tree/''
                        @ toStr E (getp r ''default_branch'') @ ''/.github/workflows'') in
        (case fetchWithRetryAndLogging E url GET w of
           (Inl e, w') \<Rightarrow> (Some e, r, w')
         | (Inr resp, w') \<Rightarrow>
             if status resp = 404 then (None, r(''workflows_count'' \<mapsto> JNum (Num 0)), w')
             else if status resp \<noteq> 200
             then (Some (UnexpectedStatus (status resp) GET url), r, w')
             else
               let rows = select_length E (body resp) ''div[role=\"row\"]'' in
               if rows \<noteq> 0 then (None, r(''workflows_count'' \<mapsto> JNum (Num (int rows - 2))), w')
               else (None, r(''workflows_count'' \<mapsto> JNum (Num 0)), w')))"

definition getWorkflows :: "env \<Rightarrow> repo list \<Rightarrow> world \<Rightarrow> error option \<times> repo list \<times> world" where
  "getWorkflows E = for_each_repo (getWorkflows_repo E)"

definition getIssueLabelsCount_repo :: "env \<Rightarrow> step" where
  "getIssueLabelsCount_repo E r w =
     (if hasOwnProperty r ''labels_count'' then (None, r, w)
      else
        let url = JStr (''https://github.com/'' @ repo_path E r @ ''/labels'') in
        (case fetchWithRetryAndLogging E url GET w of
           (Inl e, w') \<Rightarrow> (Some e, r, w')
         | (Inr resp, w') \<Rightarrow>
             if status resp \<noteq> 200 then (Some (UnexpectedStatus (status resp) GET url), r, w')
             else
               (None,
                r(''labels_count'' \<mapsto>
                    JNum (toNumber E (select_text E (body resp) ''.js-labels-count''))),
                w')))"

definition getIssueLabelsCount ::
  "env \<Rightarrow> repo list \<Rightarrow> world \<Rightarrow> error option \<times> repo list \<times> world" where
  "getIssueLabelsCount E = for_each_repo (getIssueLabelsCount_repo E)"

definition milestones_link :: "env \<Rightarrow> repo \<Rightarrow> string \<Rightarrow> string" where
  "milestones_link E r st =
     ''a.btn-link[href=\"/'' @ repo_path E r @ ''/milestones?state='' @ st @ ''\"]''"

definition getMilestones_repo :: "env \<Rightarrow> step" where
  "getMilestones_repo E r w =
     (if hasOwnProperty r ''milestones_count'' then (None, r, w)
      else
        let url = JStr (''https://github.com/'' @ repo_path E r @ ''/milestones'') in
        (case fetchWithRetryAndLogging E url GET w of
           (Inl e, w') \<Rightarrow> (Some e, r, w')
         | (Inr resp, w') \<Rightarrow>
             if status resp = 404 then (None, r(''milestones_count'' \<mapsto> JNum (Num 0)), w')
             else if status resp \<noteq> 200
             then (Some (UnexpectedStatus (status resp) GET url), r, w')
             else
               let openMilestonesCount =
                     toNumber E (trim E (replace_first ''Open'' []
                       (select_text E (body resp) (milestones_link E r ''open''))));
                   closedMilestonesCount =
                     toNumber E (trim E (replace_first ''Closed'' []
                       (select_text E (body resp) (milestones_link E r ''closed''))))
               in (None,
                   r(''milestones_count'' \<mapsto>
                       JNum (js_add openMilestonesCount closedMilestonesCount)),
                   w')))"

definition getMilestones :: "env \<Rightarrow> repo list \<Rightarrow> world \<Rightarrow> error option \<times> repo list \<times> world" where
  "getMilestones E = for_each_repo (getMilestones_repo E)"

text \<open>
  The presence collectors all end in \<^verbatim>\<open>repo.key = await doesAnyFileExist(urls)\<close>:
  nothing is assigned when the probe throws.
\<close>

definition assign_exists :: "env \<Rightarrow> string \<Rightarrow> jsval list \<Rightarrow> step" where
  "assign_exists E key urls r w =
     (case doesAnyFileExist E urls w of
        (Inl e, w') \<Rightarrow> (Some e, r, w')
      | (Inr found, w') \<Rightarrow> (None, r(key \<mapsto> JBool found), w'))"

definition branch_file :: "env \<Rightarrow> repo \<Rightarrow> string \<Rightarrow> jsval" where
  "branch_file E r path =
     JStr (''https://raw.githubusercontent.com/'' @ repo_path E r @ ''/''
           @ toStr E (getp r ''default_branch'') @ path)"

definition org_file :: "env \<Rightarrow> repo \<Rightarrow> string \<Rightarrow> string \<Rightarrow> jsval" where
  "org_file E r name branch =
     JStr (''https://raw.githubusercontent.com/'' @ toStr E (getp r ''owner'') @ ''/.github/''
           @ branch @ ''/'' @ name)"

definition getSecurityFiles_repo :: "env \<Rightarrow> step" where
  "getSecurityFiles_repo E r w =
     (if hasOwnProperty r ''has_security_file'' then (None, r, w)
      else
        let directories = [''/'', ''/docs/'', ''/.github/''];
            branches = [''master'', ''main''];
            urls = map (\<lambda>directory. branch_file E r (directory @ ''SECURITY.md'')) directories
                   @ map (org_file E r ''SECURITY.md'') branches
        in assign_exists E ''has_security_file'' urls r w)"

definition getSecurityFiles :: "env \<Rightarrow> repo list \<Rightarrow> world \<Rightarrow> error option \<times> repo list \<times> world" where
  "getSecurityFiles E = for_each_repo (getSecurityFiles_repo E)"

definition getSupportFiles_repo :: "env \<Rightarrow> step" where
  "getSupportFiles_repo E r w =
     (if hasOwnProperty r ''has_support_file'' then (None, r, w)
      else
        let directories = [''/'', ''/docs/'', ''/.github/''];
            branches = [''master'', ''main''];
            urls = map (\<lambda>directory. branch_file E r (directory @ ''SUPPORT.md'')) directories
                   @ map (org_file E r ''SUPPORT.md'') branches
        in assign_exists E ''has_support_file'' urls r w)"

definition getSupportFiles :: "env \<Rightarrow> repo list \<Rightarrow> world \<Rightarrow> error option \<times> repo list \<times> world" where
  "getSupportFiles E = for_each_repo (getSupportFiles_repo E)"

definition getFundingFiles_repo :: "env \<Rightarrow> step" where
  "getFundingFiles_repo E r w =
     (if hasOwnProperty r ''has_funding_file'' then (None, r, w)
      else assign_exists E ''has_funding_file'' [branch_file E r ''/.github/FUNDING.yml''] r w)"

definition getFundingFiles :: "env \<Rightarrow> repo list \<Rightarrow> world \<Rightarrow> error option \<times> repo list \<times> world" where
  "getFundingFiles E = for_each_repo (getFundingFiles_repo E)"

definition getCodeowners_repo :: "env \<Rightarrow> step" where
  "getCodeowners_repo E r w =
     (if hasOwnProperty r ''has_codeowners'' then (None, r, w)
      else
        let directories = [''/'', ''/docs/'', ''/.github/''];
            urls = map (\<lambda>directory. branch_file E r (directory @ ''CODEOWNERS'')) directories
        in assign_exists E ''has_codeowners'' urls r w)"

definition getCodeowners :: "env \<Rightarrow> repo list \<Rightarrow> world \<Rightarrow> error option \<times> repo list \<times> world" where
  "getCodeowners E = for_each_repo (getCodeowners_repo E)"

definition getChangelog_repo :: "env \<Rightarrow> step" where
  "getChangelog_repo E r w =
     (if hasOwnProperty r ''has_changelog'' then (None, r, w)
      else
        let locations = [''CHANGELOG.md''];
            urls = map (\<lambda>location. branch_file E r (''/'' @ location)) locations
        in assign_exists E ''has_changelog'' urls r w)"

definition getChangelog :: "env \<Rightarrow> repo list \<Rightarrow> world \<Rightarrow> error option \<times> repo list \<times> world" where
  "getChangelog E = for_each_repo (getChangelog_repo E)"

definition getCodespaces_repo :: "env \<Rightarrow> step" where
  "getCodespaces_repo E r w =
     (if hasOwnProperty r ''has_codespaces'' then (None, r, w)
      else
        let locations = [''.devcontainer.json'', ''.devcontainer/devcontainer.json''];
            urls = map (\<lambda>location. branch_file E r (''/'' @ location)) locations
        in assign_exists E ''has_codespaces'' urls r w)"

definition getCodespaces :: "env \<Rightarrow> repo list \<Rightarrow> world \<Rightarrow> error option \<times> repo list \<times> world" where
  "getCodespaces E = for_each_repo (getCodespaces_repo E)"

definition getDiscussions_repo :: "env \<Rightarrow> step" where
  "getDiscussions_repo E r w =
     (if hasOwnProperty r ''has_discussions'' then (None, r, w)
      else
        assign_exists E ''has_discussions''
          [JStr (''https://github.com/'' @ repo_path E r @ ''/discussions'')] r w)"

definition getDiscussions :: "env \<Rightarrow> repo list \<Rightarrow> world \<Rightarrow> error option \<times> repo list \<times> world" where
  "getDiscussions E = for_each_repo (getDiscussions_repo E)"

definition getDependabot_repo :: "env \<Rightarrow> step" where
  "getDependabot_repo E r w =
     (if hasOwnProperty r ''uses_dependabot'' then (None, r, w)
      else
        let locations = [''.dependabot/config.yml'', ''.github/dependabot.yml''];
            urls = map (\<lambda>location. branch_file E r (''/'' @ location)) locations
        in assign_exists E ''uses_dependabot'' urls r w)"

definition getDependabot :: "env \<Rightarrow> repo list \<Rightarrow> world \<Rightarrow> error option \<times> repo list \<times> world" where
  "getDependabot E = for_each_repo (getDependabot_repo E)"

section \<open>The collectors by name, and their fixed sequence\<close>

datatype collector =
    GetContributorCounts | GetWorkflows | GetCommunityProfileMetrics | GetReadmeLengths
  | GetLanguages | GetSupportFiles | GetEnvironments | GetFundingFiles | GetDeployments
  | GetReleases | GetIssueLabelsCount | GetMilestones | GetSecurityFiles | GetCodeowners
  | GetChangelog | GetCodespaces | GetDiscussions | GetDependabot

text \<open>The body of each collector's loop, and the key its first line tests.\<close>

fun collector_step :: "env \<Rightarrow> collector \<Rightarrow> step" where
  "collector_step E GetContributorCounts = getContributorCounts_repo E"
| "collector_step E GetWorkflows = getWorkflows_repo E"
| "collector_step E GetCommunityProfileMetrics = getCommunityProfileMetrics_repo E"
| "collector_step E GetReadmeLengths = getReadmeLengths_repo E"
| "collector_step E GetLanguages = getLanguages_repo E"
| "collector_step E GetSupportFiles = getSupportFiles_repo E"
| "collector_step E GetEnvironments = getEnvironments_repo E"
| "collector_step E GetFundingFiles = getFundingFiles_repo E"
| "collector_step E GetDeployments = getDeployments_repo E"
| "collector_step E GetReleases = getReleases_repo E"
| "collector_step E GetIssueLabelsCount = getIssueLabelsCount_repo E"
| "collector_step E GetMilestones = getMilestones_repo E"
| "collector_step E GetSecurityFiles = getSecurityFiles_repo E"
| "collector_step E GetCodeowners = getCodeowners_repo E"
| "collector_step E GetChangelog = getChangelog_repo E"
| "collector_step E GetCodespaces = getCodespaces_repo E"
| "collector_step E GetDiscussions = getDiscussions_repo E"
| "collector_step E GetDependabot = getDependabot_repo E"

fun target_key :: "collector \<Rightarrow> string" where
  "target_key GetContributorCounts = ''contributor_count''"
| "target_key GetWorkflows = ''workflows_count''"
| "target_key GetCommunityProfileMetrics = ''has_code_of_conduct''"
| "target_key GetReadmeLengths = ''readme_size''"
| "target_key GetLanguages = ''languages''"
| "target_key GetSupportFiles = ''has_support_file''"
| "target_key GetEnvironments = ''environments''"
| "target_key GetFundingFiles = ''has_funding_file''"
| "target_key GetDeployments = ''has_deployments''"
| "target_key GetReleases = ''has_releases''"
| "target_key GetIssueLabelsCount = ''labels_count''"
| "target_key GetMilestones = ''milestones_count''"
| "target_key GetSecurityFiles = ''has_security_file''"
| "target_key GetCodeowners = ''has_codeowners''"
| "target_key GetChangelog = ''has_changelog''"
| "target_key GetCodespaces = ''has_codespaces''"
| "target_key GetDiscussions = ''has_discussions''"
| "target_key GetDependabot = ''uses_dependabot''"

definition run_collector ::
  "env \<Rightarrow> collector \<Rightarrow> repo list \<Rightarrow> world \<Rightarrow> error option \<times> repo list \<times> world" where
  "run_collector E c = for_each_repo (collector_step E c)"

text \<open>The awaits of \<^verbatim>\<open>getDetails\<close>, in the order of the source; a throw ends the sequence.\<close>

definition details_sequence :: "collector list" where
  "details_sequence =
     [GetWorkflows, GetCommunityProfileMetrics, GetReadmeLengths, GetLanguages,
      GetSupportFiles, GetEnvironments, GetFundingFiles, GetDeployments, GetReleases,
      GetIssueLabelsCount, GetMilestones, GetSecurityFiles, GetCodeowners, GetChangelog,
      GetCodespaces, GetDiscussions, GetDependabot]"

fun run_sequence ::
  "env \<Rightarrow> collector list \<Rightarrow> repo list \<Rightarrow> world \<Rightarrow> error option \<times> repo list \<times> world" where
  "run_sequence E [] rs w = (None, rs, w)"
| "run_sequence E (c # cs) rs w =
     (case run_collector E c rs w of
        (Some e, rs', w') \<Rightarrow> (Some e, rs', w')
      | (None, rs', w') \<Rightarrow> run_sequence E cs rs' w')"

definition getDetails :: "env \<Rightarrow> repo list \<Rightarrow> world \<Rightarrow> error option \<times> repo list \<times> world" where
  "getDetails E = run_sequence E details_sequence"


section \<open>Discovery and the record store\<close>

text \<open>
  The mapping \<^verbatim>\<open>getListOfRepos\<close> applies to every item of the search result. Each of
  the twenty properties is assigned, also when its value is \<^verbatim>\<open>undefined\<close>.
\<close>

definition snapshot :: "jsval \<Rightarrow> error + repo" where
  "snapshot item =
     (case js_member item ''owner'' of
        Inl e \<Rightarrow> Inl e
      | Inr owner \<Rightarrow>
          let field = (\<lambda>k. lookup (case item of JObj kvs \<Rightarrow> kvs | _ \<Rightarrow> []) k);
              license = field ''license''
          in Inr (map_of
            [(''owner'',
                if owner = JUndefined \<or> owner = JNull then JUndefined
                else lookup (case owner of JObj kvs \<Rightarrow> kvs | _ \<Rightarrow> []) ''login''),
             (''repo'', field ''name''),
             (''description'', field ''description''),
             (''default_branch'', field ''default_branch''),
             (''created_at'', field ''created_at''),
             (''updated_at'', field ''updated_at''),
             (''pushed_at'', field ''pushed_at''),
             (''size'', field ''size''),
             (''stargazers_count'', field ''stargazers_count''),
             (''watchers_count'', field ''watchers_count''),
             (''primary_language'', field ''language''),
             (''has_issues'', field ''has_issues''),
             (''has_projects'', field ''has_projects''),
             (''has_downloads'', field ''has_downloads''),
             (''has_wiki'', field ''has_wiki''),
             (''has_pages'', field ''has_pages''),
             (''forks_count'', field ''forks_count''),
             (''open_issues_count'', field ''open_issues_count''),
             (''license'',
                if truthy license then
                  (let spdx_id = lookup (case license of JObj kvs \<Rightarrow> kvs | _ \<Rightarrow> []) ''spdx_id''
                   in if strict_eq False spdx_id (JStr ''NOASSERTION'') then JStr ''Non-standard''
                      else spdx_id)
                else JStr ''None''),
             (''topics'', field ''topics'')]))"

fun snapshots :: "jsval list \<Rightarrow> error + repo list" where
  "snapshots [] = Inr []"
| "snapshots (item # items) =
     (case snapshot item of
        Inl e \<Rightarrow> Inl e
      | Inr r \<Rightarrow> (case snapshots items of Inl e \<Rightarrow> Inl e | Inr rs \<Rightarrow> Inr (r # rs)))"

text \<open>The pages of the search are one answer of \<open>api\<close>: the array of all items.\<close>

definition getListOfRepos :: "env \<Rightarrow> string \<Rightarrow> string \<Rightarrow> world \<Rightarrow> (error + repo list) \<times> world" where
  "getListOfRepos E query sort_by w =
     (case octokit E (ApiSearchRepositories query sort_by) w of
        (Inl e, w') \<Rightarrow> (Inl e, w')
      | (Inr (JArr items), w') \<Rightarrow> (snapshots items, w')
      | (Inr v, w') \<Rightarrow> (Inl TypeError, w'))"

text \<open>
  \<^verbatim>\<open>findIndex\<close> and \<^verbatim>\<open>filter\<close> hand the callback the element and its index; the first
  argument is the index of the head of the list.
\<close>

fun findIndex_from :: "nat \<Rightarrow> ('a \<Rightarrow> nat \<Rightarrow> bool) \<Rightarrow> 'a list \<Rightarrow> int" where
  "findIndex_from j p [] = - 1"
| "findIndex_from j p (x # xs) = (if p x j then int j else findIndex_from (Suc j) p xs)"

fun filter_from :: "nat \<Rightarrow> ('a \<Rightarrow> nat \<Rightarrow> bool) \<Rightarrow> 'a list \<Rightarrow> 'a list" where
  "filter_from i p [] = []"
| "filter_from i p (x # xs) =
     (if p x i then x # filter_from (Suc i) p xs else filter_from (Suc i) p xs)"

text \<open>
  \<^verbatim>\<open>r.owner === repo.owner && r.repo === repo.repo\<close>; \<open>same\<close> says that \<open>r\<close> and
  \<open>repo\<close> are one object of the list.
\<close>

definition same_identity :: "bool \<Rightarrow> repo \<Rightarrow> repo \<Rightarrow> bool" where
  "same_identity same r rp =
     (strict_eq same (getp r ''owner'') (getp rp ''owner'')
      \<and> strict_eq same (getp r ''repo'') (getp rp ''repo''))"

definition removeDuplicateRepos :: "repo list \<Rightarrow> repo list" where
  "removeDuplicateRepos listOfRepos =
     filter_from 0
       (\<lambda>rp i. int i = findIndex_from 0 (\<lambda>r j. same_identity (j = i) r rp) listOfRepos)
       listOfRepos"

section \<open>Checkpoint and dataset files\<close>

text \<open>
  What \<^verbatim>\<open>JSON.stringify\<close> followed by \<^verbatim>\<open>JSON.parse\<close> makes of a value: \<open>NaN\<close> and an
  \<^verbatim>\<open>undefined\<close> array entry become \<^verbatim>\<open>null\<close>, a property holding \<^verbatim>\<open>undefined\<close> is
  left out.
\<close>

fun json_value :: "jsval \<Rightarrow> jsval" where
  "json_value JUndefined = JNull"
| "json_value (JNum NaN) = JNull"
| "json_value (JArr xs) = JArr (map json_value xs)"
| "json_value (JObj kvs) =
     JObj (map (\<lambda>kv. (fst kv, json_value (snd kv))) (filter (\<lambda>kv. snd kv \<noteq> JUndefined) kvs))"
| "json_value v = v"

definition json_repo :: "repo \<Rightarrow> repo" where
  "json_repo r =
     (\<lambda>k. case r k of
             None \<Rightarrow> None
           | Some v \<Rightarrow> if v = JUndefined then None else Some (json_value v))"

text \<open>
  The dataset handed to the ARFF formatter: the value sets of the two enumerated
  columns that depend on the data, and one row per record. A row lists its columns in
  the order of the source.
\<close>

type_synonym row = "(string \<times> jsval) list"

record dataset =
  primary_language_values :: "jsval list"
  license_values :: "jsval list"
  data_rows :: "row list"

datatype disk_file = JsonFile "repo list" | ArffFile dataset

text \<open>\<^verbatim>\<open>[...new Set(xs)]\<close>: the distinct values in the order of their first occurrence.\<close>

definition unique_values :: "jsval list \<Rightarrow> jsval list" where
  "unique_values xs = rev (remdups (rev xs))"

fun coerceBooleanToYN :: "jsval \<Rightarrow> jsval" where
  "coerceBooleanToYN (JBool True) = JStr ''y''"
| "coerceBooleanToYN (JBool False) = JStr ''n''"
| "coerceBooleanToYN v = JNull"

text \<open>\<^verbatim>\<open>Object.keys(v).length\<close>, which throws on \<^verbatim>\<open>undefined\<close> and \<^verbatim>\<open>null\<close>.\<close>

fun keys_count :: "jsval \<Rightarrow> error + jsval" where
  "keys_count JUndefined = Inl TypeError"
| "keys_count JNull = Inl TypeError"
| "keys_count (JObj kvs) = Inr (JNum (Num (int (length (remdups (map fst kvs))))))"
| "keys_count (JArr xs) = Inr (JNum (Num (int (length xs))))"
| "keys_count (JStr s) = Inr (JNum (Num (int (length s))))"
| "keys_count v = Inr (JNum (Num 0))"

text \<open>\<^verbatim>\<open>v?.length\<close>.\<close>

definition optional_length :: "jsval \<Rightarrow> jsval" where
  "optional_length v = (if v = JUndefined \<or> v = JNull then JUndefined else js_length v)"

text \<open>
  One row of the dataset. \<open>languages\<close> is the object of byte counts the languages
  endpoint answered: the read \<^verbatim>\<open>repo.languages[repo.primary_language]\<close> looks the name
  up in it, and gives \<^verbatim>\<open>undefined\<close> on a value of another kind. The ratio column is
  there only when that read is truthy.
\<close>

definition arff_row :: "env \<Rightarrow> repo \<Rightarrow> error + row" where
  "arff_row E r =
     (case keys_count (getp r ''languages'') of
        Inl e \<Rightarrow> Inl e
      | Inr languages_count \<Rightarrow>
          let yn = (\<lambda>k. (k, coerceBooleanToYN (getp r k)));
              same = (\<lambda>k. (k, getp r k));
              table = (case getp r ''languages'' of JObj kvs \<Rightarrow> kvs | _ \<Rightarrow> []);
              primary = lookup table (toStr E (getp r ''primary_language''));
              branch = getp r ''default_branch''
          in Inr
            ([(''seconds_since_created'', seconds_since E (getp r ''created_at'')),
              (''seconds_since_updated'', seconds_since E (getp r ''updated_at'')),
              (''seconds_since_pushed'', seconds_since E (getp r ''pushed_at'')),
              same ''size'', same ''stargazers_count'', same ''watchers_count'',
              same ''primary_language'',
              yn ''has_issues'', yn ''has_projects'', yn ''has_downloads'', yn ''has_wiki'',
              yn ''has_pages'',
              same ''forks_count'', same ''open_issues_count'', same ''license'',
              (''topics_count'', optional_length (getp r ''topics'')),
              same ''workflows_count'', same ''readme_size'',
              yn ''has_code_of_conduct'', yn ''has_contributing'', yn ''has_support_file'',
              yn ''has_funding_file'', yn ''has_security_file'', yn ''has_codeowners'',
              yn ''has_changelog'', yn ''has_codespaces'', yn ''has_discussions'',
              yn ''uses_dependabot'', yn ''has_issue_template'', yn ''has_pull_request_template'',
              (''languages_count'', languages_count)]
             @ (if truthy primary
                then [(''primary_language_ratio'', ratio E primary (map snd table))] else [])
             @ [yn ''has_deployments'',
                (''environments_count'', optional_length (getp r ''environments'')),
                yn ''has_releases'', same ''labels_count'', same ''milestones_count'',
                (''default_branch'',
                   if branch = JStr ''master'' \<or> branch = JStr ''main'' then branch
                   else JStr ''other''),
                same ''contributor_count'']))"

fun arff_rows :: "env \<Rightarrow> repo list \<Rightarrow> error + row list" where
  "arff_rows E [] = Inr []"
| "arff_rows E (r # rs) =
     (case arff_row E r of
        Inl e \<Rightarrow> Inl e
      | Inr x \<Rightarrow> (case arff_rows E rs of Inl e \<Rightarrow> Inl e | Inr xs \<Rightarrow> Inr (x # xs)))"

section \<open>The batch\<close>

text \<open>
  The state of the process: the global \<^verbatim>\<open>repos\<close> (\<^verbatim>\<open>null\<close> until the first batch
  assigns it), the requests issued, and the files on disk. A write replaces the whole
  content of a file.
\<close>

record state =
  repos :: "repo list option"
  requests :: world
  files :: "string \<rightharpoonup> disk_file"

datatype completion = Returned | Threw error | Exited

definition writeToArffFile :: "env \<Rightarrow> repo list \<Rightarrow> string \<Rightarrow> state \<Rightarrow> error option \<times> state" where
  "writeToArffFile E listOfRepos filename st =
     (let uniqueLanguages = unique_values (map (\<lambda>r. getp r ''primary_language'') listOfRepos);
          uniqueLicenses = unique_values (map (\<lambda>r. getp r ''license'') listOfRepos)
      in case arff_rows E listOfRepos of
           Inl e \<Rightarrow> (Some e, st)
         | Inr xs \<Rightarrow>
             (None,
              st\<lparr>files := (files st)(filename \<mapsto>
                    ArffFile \<lparr>primary_language_values = uniqueLanguages,
                              license_values = uniqueLicenses, data_rows = xs\<rparr>)\<rparr>))"

definition writeRawDataToJsonFile :: "repo list \<Rightarrow> string \<Rightarrow> state \<Rightarrow> state" where
  "writeRawDataToJsonFile listOfRepos filename st =
     st\<lparr>files := (files st)(filename \<mapsto> JsonFile (map json_repo listOfRepos))\<rparr>"

text \<open>\<^verbatim>\<open>shutdown\<close> saves the records, if there are any, and the process exits.\<close>

definition shutdown :: "state \<Rightarrow> state" where
  "shutdown st =
     (case repos st of
        Some rs \<Rightarrow> st\<lparr>files := (files st)(''repos.json'' \<mapsto> JsonFile (map json_repo rs))\<rparr>
      | None \<Rightarrow> st)"

text \<open>\<^verbatim>\<open>repos.filter(repo => repo.contributor_count)\<close>, the invalid-record filter.\<close>

definition valid_repos :: "repo list \<Rightarrow> repo list" where
  "valid_repos rs = filter (\<lambda>rp. truthy (getp rp ''contributor_count'')) rs"

text \<open>
  The \<^verbatim>\<open>try\<close> block of \<^verbatim>\<open>doBatch\<close>. The records are objects changed in place, so the
  global list holds what every collector assigned before a throw.
\<close>

definition batch_try :: "env \<Rightarrow> state \<Rightarrow> completion \<times> state" where
  "batch_try E st =
     (case repos st of
        None \<Rightarrow> (Threw TypeError, st)
      | Some rs \<Rightarrow>
          (case getContributorCounts E rs (requests st) of
             (Some e, rs1, w1) \<Rightarrow> (Threw e, st\<lparr>repos := Some rs1, requests := w1\<rparr>)
           | (None, rs1, w1) \<Rightarrow>
               (case getDetails E (valid_repos rs1) w1 of
                  (Some e, rs2, w2) \<Rightarrow> (Threw e, st\<lparr>repos := Some rs2, requests := w2\<rparr>)
                | (None, rs2, w2) \<Rightarrow>
                    (case writeToArffFile E rs2 ''github.arff''
                            (st\<lparr>repos := Some rs2, requests := w2\<rparr>) of
                       (Some e, st3) \<Rightarrow> (Threw e, st3)
                     | (None, st3) \<Rightarrow>
                         if length rs2 > 10000 then (Exited, shutdown st3)
                         else (Returned, st3)))))"

text \<open>The \<^verbatim>\<open>finally\<close> block; it does not run once the process has exited.\<close>

definition batch_finally :: "completion \<times> state \<Rightarrow> completion \<times> state" where
  "batch_finally x =
     (case x of
        (Exited, st) \<Rightarrow> (Exited, st)
      | (c, st) \<Rightarrow>
          (c, case repos st of
                Some rs \<Rightarrow> writeRawDataToJsonFile rs ''repos.json'' st
              | None \<Rightarrow> st))"

text \<open>
  The start of \<^verbatim>\<open>doBatch(query, sort)\<close>, up to the assignment of the merged list to
  the global. The checkpoint file holds an array of records; a missing or unreadable
  file counts as no saved records. A throw of the search leaves the global as it was.
\<close>

definition batch_start :: "env \<Rightarrow> jsval \<Rightarrow> jsval \<Rightarrow> state \<Rightarrow> error option \<times> state" where
  "batch_start E query sort_by st =
     (let savedRepos = (case files st ''repos.json'' of Some (JsonFile rs) \<Rightarrow> rs | _ \<Rightarrow> []) in
      case (if truthy query \<and> truthy sort_by
            then getListOfRepos E ''stars:>10'' ''updated'' (requests st)
            else (Inr [], requests st)) of
        (Inl e, w) \<Rightarrow> (Some e, st\<lparr>requests := w\<rparr>)
      | (Inr newRepos, w) \<Rightarrow>
          (None, st\<lparr>repos := Some (removeDuplicateRepos (savedRepos @ newRepos)),
                      requests := w\<rparr>))"

definition doBatch :: "env \<Rightarrow> jsval \<Rightarrow> jsval \<Rightarrow> state \<Rightarrow> completion \<times> state" where
  "doBatch E query sort_by st =
     (case batch_start E query sort_by st of
        (Some e, st1) \<Rightarrow> (Threw e, st1)
      | (None, st1) \<Rightarrow> batch_finally (batch_try E st1))"

section \<open>Throttling hooks of the API client\<close>

text \<open>
  \<^verbatim>\<open>onRateLimit(retryAfter, options)\<close> gives the milliseconds it sleeps itself and
  whether it asks for a retry (\<^verbatim>\<open>return true\<close>); \<open>retryCount\<close> is
  \<^verbatim>\<open>options.request.retryCount\<close> and \<open>retryAfter\<close> is in seconds.
  \<^verbatim>\<open>onAbuseLimit\<close> only logs, so it never asks for a retry.
\<close>

definition onRateLimit :: "nat \<Rightarrow> nat \<Rightarrow> nat \<times> bool" where
  "onRateLimit retryAfter retryCount =
     (if retryAfter < 10 then 1000 else 0, retryCount \<le> 2)"

definition onAbuseLimit :: "nat \<Rightarrow> nat \<Rightarrow> bool" where
  "onAbuseLimit retryAfter retryCount = False"

text \<open>
  The throttling plugin that calls the hooks is a dependency, not a file of the
  script. Its contract, as its documentation gives it: \<open>retryCount\<close> is the number of
  retries the request has had so far, 0 when the first limit signal arrives; the
  hook for the kind of signal is called with the wait the server indicated; when the
  hook returns true the plugin waits that many seconds and sends the request again
  with \<open>retryCount\<close> one higher, otherwise the error goes to the caller.
  \<open>answers k\<close> is the server's answer to attempt \<open>k\<close>, counted from 0. The result
  is the outcome, the number of attempts made, and the delay before each retry in
  milliseconds.
\<close>

datatype answer = Answered jsval | RateLimited nat | AbuseDetected nat

function throttled_request ::
  "(nat \<Rightarrow> answer) \<Rightarrow> nat \<Rightarrow> nat list \<Rightarrow> (error + jsval) \<times> nat \<times> nat list" where
  "throttled_request answers retryCount delays =
     (case answers retryCount of
        Answered data \<Rightarrow> (Inr data, Suc retryCount, delays)
      | AbuseDetected retryAfter \<Rightarrow>
          if onAbuseLimit retryAfter retryCount
          then throttled_request answers (Suc retryCount) (delays @ [1000 * retryAfter])
          else (Inl (ApiError (Some 403)), Suc retryCount, delays)
      | RateLimited retryAfter \<Rightarrow>
          if snd (onRateLimit retryAfter retryCount)
          then throttled_request answers (Suc retryCount)
                 (delays @ [fst (onRateLimit retryAfter retryCount) + 1000 * retryAfter])
          else (Inl (ApiError (Some 403)), Suc retryCount, delays))"
  by pat_completeness auto
termination
  by (relation "measure (\<lambda>(answers, retryCount, delays). 3 - retryCount)")
     (auto simp: onRateLimit_def onAbuseLimit_def)

section \<open>Vocabulary of the properties, and a small world to run them in\<close>

text \<open>The HEAD check of a candidate came back with status \<open>s\<close>.\<close>

definition returns :: "error + response \<Rightarrow> nat \<Rightarrow> bool" where
  "returns x s = (case x of Inl e \<Rightarrow> False | Inr resp \<Rightarrow> status resp = s)"

text \<open>The attributes the body of each collector can assign.\<close>

fun assigned_keys :: "collector \<Rightarrow> string list" where
  "assigned_keys GetCommunityProfileMetrics =
     [''has_code_of_conduct'', ''has_contributing'', ''has_issue_template'',
      ''has_pull_request_template'', ''rawReadmeUrl'', ''readme_size'']"
| "assigned_keys c = [target_key c]"

text \<open>
  The identity of a record is its pair of owner and name. Identities are compared with
  \<^verbatim>\<open>===\<close>, which is equality of the values when neither is \<open>NaN\<close>, an array or an
  object: this is what \<open>plain\<close> says, and every string, \<^verbatim>\<open>null\<close> and \<^verbatim>\<open>undefined\<close> is
  plain.
\<close>

fun plain :: "jsval \<Rightarrow> bool" where
  "plain (JNum NaN) = False"
| "plain (JArr xs) = False"
| "plain (JObj kvs) = False"
| "plain v = True"

definition identity :: "repo \<Rightarrow> jsval \<times> jsval" where
  "identity r = (getp r ''owner'', getp r ''repo'')"

definition identified :: "repo \<Rightarrow> bool" where
  "identified r = (plain (getp r ''owner'') \<and> plain (getp r ''repo''))"

text \<open>
  Keeping the first record of every identity, written as a recursion over the list
  with the records already passed: the merge as the specification words it, to be
  compared with \<open>removeDuplicateRepos\<close>.
\<close>

fun keep_first :: "repo list \<Rightarrow> repo list \<Rightarrow> repo list" where
  "keep_first seen [] = []"
| "keep_first seen (r # rs) =
     (if identity r \<in> set (map identity seen) then keep_first (seen @ [r]) rs
      else r # keep_first (seen @ [r]) rs)"

text \<open>What the filter and the later collectors must agree on: identity and count.\<close>

definition scored :: "repo \<Rightarrow> jsval option \<times> jsval option \<times> jsval option" where
  "scored r = (r ''owner'', r ''repo'', r ''contributor_count'')"

text \<open>
  A world for running the model. Three locations answer 404, 200 and 500; the landing
  page of \<open>octo/solo\<close> has no contributor figure in its sidebar, that of \<open>octo/many\<close>
  shows \<open>1,234\<close>; every other fetch is rejected and the API always fails. Promises
  settle in the reverse of the order they were made.
\<close>

definition page :: "nat \<Rightarrow> string \<Rightarrow> response" where
  "page st text = \<lparr>status = st, landed_url = [], content_length = None, body = text\<rparr>"

definition demo_env :: env where
  "demo_env =
     \<lparr>net = (\<lambda>n m url.
               if url = JStr ''A'' then Some (page 404 [])
               else if url = JStr ''B'' then Some (page 200 [])
               else if url = JStr ''C'' then Some (page 500 [])
               else if url = JStr ''https://www.github.com/octo/solo'' then Some (page 200 ''solo'')
               else if url = JStr ''https://www.github.com/octo/many'' then Some (page 200 ''many'')
               else None),
      api = (\<lambda>n c. Inl None),
      settle_order = (\<lambda>n k. rev [0..<k]),
      toNumber = (\<lambda>s. if s = ''12'' then Num 12 else if s = [] then Num 0 else NaN),
      toStr = (\<lambda>v. case v of JStr s \<Rightarrow> s | _ \<Rightarrow> ''undefined''),
      trim = (\<lambda>s. s),
      select_html = (\<lambda>b sel. if b = ''many'' then Some ''1,234'' else None),
      select_text = (\<lambda>b sel. []),
      select_length = (\<lambda>b sel. 0),
      seconds_since = (\<lambda>v. JNum (Num 0)),
      ratio = (\<lambda>v vs. JNum NaN)\<rparr>"

definition octo :: "string \<Rightarrow> repo" where
  "octo name = [''owner'' \<mapsto> JStr ''octo'', ''repo'' \<mapsto> JStr name]"

definition empty_state :: state where
  "empty_state = \<lparr>repos = None, requests = [], files = Map.empty\<rparr>"

text \<open>
  A checkpoint with two records: \<open>octo/solo\<close>, not yet counted, and \<open>octo/zero\<close>, whose
  stored contributor count is 0.
\<close>

definition demo_checkpoint :: state where
  "demo_checkpoint =
     empty_state\<lparr>files :=
       [''repos.json'' \<mapsto>
          JsonFile [octo ''solo'', (octo ''zero'')(''contributor_count'' \<mapsto> JNum (Num 0))]]\<rparr>"

text \<open>The checkpoint file holds the global list of records, when there is one.\<close>

definition checkpoint_current :: "state \<Rightarrow> bool" where
  "checkpoint_current st =
     (case repos st of
        None \<Rightarrow> True
      | Some rs \<Rightarrow> files st ''repos.json'' = Some (JsonFile (map json_repo rs)))"

text \<open>
  Nothing collected is lost from \<open>r\<close> to \<open>r'\<close>: every attribute of \<open>r\<close> is an attribute
  of \<open>r'\<close> with the same value. The exception is the source's own:
  \<^verbatim>\<open>getCommunityProfileMetrics\<close> tests \<open>has_code_of_conduct\<close> only, so the attributes it
  assigns are vouched for on the records that have \<open>has_code_of_conduct\<close>.
\<close>

definition keeps_collected :: "repo \<Rightarrow> repo \<Rightarrow> bool" where
  "keeps_collected r r' =
     (\<forall>k v. r k = Some v
            \<and> (k \<in> set (assigned_keys GetCommunityProfileMetrics)
                 \<longrightarrow> hasOwnProperty r ''has_code_of_conduct'')
            \<longrightarrow> r' k = Some v)"

text \<open>
  A checkpoint with two records not yet counted: \<open>octo/solo\<close>, and \<open>octo/ghost\<close>, whose
  landing page cannot be fetched in the demonstration world.
\<close>

definition ghost_checkpoint :: state where
  "ghost_checkpoint =
     empty_state\<lparr>files := [''repos.json'' \<mapsto> JsonFile [octo ''solo'', octo ''ghost'']]\<rparr>"

section \<open>The demonstration world, field by field\<close>

lemma octo_simps:
  "octo n ''owner'' = Some (JStr ''octo'')"
  "octo n ''repo'' = Some (JStr n)"
  "k \<noteq> ''owner'' \<Longrightarrow> k \<noteq> ''repo'' \<Longrightarrow> octo n k = None"
  by (simp_all add: octo_def)

lemma demo_env_simps:
  "net demo_env n m url =
     (if url = JStr ''A'' then Some (page 404 [])
      else if url = JStr ''B'' then Some (page 200 [])
      else if url = JStr ''C'' then Some (page 500 [])
      else if url = JStr ''https://www.github.com/octo/solo'' then Some (page 200 ''solo'')
      else if url = JStr ''https://www.github.com/octo/many'' then Some (page 200 ''many'')
      else None)"
  "api demo_env n c = Inl None"
  "toNumber demo_env s = (if s = ''12'' then Num 12 else if s = [] then Num 0 else NaN)"
  "toStr demo_env (JStr s) = s"
  "toStr demo_env JUndefined = ''undefined''"
  "trim demo_env s = s"
  "select_html demo_env b sel = (if b = ''many'' then Some ''1,234'' else None)"
  by (simp_all add: demo_env_def)

section \<open>The existence probe: first success wins\<close>

lemma promise_any_Inr:
  "promise_any sched os = Inr v \<Longrightarrow> Inr v \<in> set os"
  by (induction sched) (auto split: if_splits sum.splits simp: in_set_conv_nth)

lemma promise_any_none:
  "\<forall>i\<in>set sched. i < length os \<longrightarrow> (\<exists>e. os ! i = Inl e) \<Longrightarrow>
   promise_any sched os = Inl (AggregateError (rejections os))"
  by (induction sched) (auto split: sum.splits)

lemma promise_any_some:
  "i \<in> set sched \<Longrightarrow> i < length os \<Longrightarrow> os ! i = Inr v \<Longrightarrow> \<exists>v'. promise_any sched os = Inr v'"
  by (induction sched) (auto split: sum.splits)

lemma rejections_mem: "e \<in> set (rejections os) \<longleftrightarrow> Inl e \<in> set os"
  by (induction os rule: rejections.induct) auto

lemma head_checks_length: "head_checks E urls w = (xs, w') \<Longrightarrow> length xs = length urls"
  by (induction urls arbitrary: w xs w') (auto split: prod.splits)

lemma found_or_throw_Inr: "found_or_throw x = Inr v \<longleftrightarrow> v \<and> returns x 200"
  by (auto simp: found_or_throw_def returns_def split: sum.splits)

lemma fetch_rejects: "fetch E url m w = (Inl e, w') \<Longrightarrow> e = FetchFailure"
  by (auto simp: fetch_def split: option.splits)

lemma fetchWithRetry_rejects: "fetchWithRetryAndLogging E url m w = (Inl e, w') \<Longrightarrow> e = FetchFailure"
  by (auto simp: fetchWithRetryAndLogging_def split: prod.splits sum.splits dest: fetch_rejects)

lemma head_checks_rejects:
  "head_checks E urls w = (xs, w') \<Longrightarrow> Inl e \<in> set xs \<Longrightarrow> e = FetchFailure"
  by (induction urls arbitrary: w xs w')
     (auto split: prod.splits dest: fetchWithRetry_rejects)

lemma found_or_throw_404:
  "x \<noteq> Inl (ThrownStatus 404) \<Longrightarrow> found_or_throw x = Inl (ThrownStatus 404) \<longleftrightarrow> returns x 404"
  by (auto simp: found_or_throw_def returns_def split: sum.splits if_splits)

text \<open>The probe's result, from the outcomes of the candidates alone.\<close>

lemma probe_result:
  assumes sched: "set sched = {..<length xs}"
  shows "all_not_found (promise_any sched (map found_or_throw xs)) =
     (if \<exists>x\<in>set xs. returns x 200 then Inr True
      else if \<forall>e\<in>set (rejections (map found_or_throw xs)). e = ThrownStatus 404 then Inr False
      else Inl (AggregateError (rejections (map found_or_throw xs))))"
proof (cases "\<exists>x\<in>set xs. returns x 200")
  case True
  then obtain i where i: "i < length xs" "returns (xs ! i) 200"
    by (auto simp: in_set_conv_nth)
  then have "map found_or_throw xs ! i = Inr True"
    by (simp add: found_or_throw_Inr)
  with i sched obtain v' where v': "promise_any sched (map found_or_throw xs) = Inr v'"
    using promise_any_some[of i sched "map found_or_throw xs" True] by auto
  then have "Inr v' \<in> set (map found_or_throw xs)" by (rule promise_any_Inr)
  then have "v'" using found_or_throw_Inr by (metis (full_types) imageE list.set_map)
  with v' True show ?thesis by (simp add: all_not_found_def)
next
  case False
  then have "\<forall>i\<in>set sched. i < length (map found_or_throw xs) \<longrightarrow> (\<exists>e. map found_or_throw xs ! i = Inl e)"
    by (metis found_or_throw_Inr length_map nth_map nth_mem old.sum.exhaust)
  then have "promise_any sched (map found_or_throw xs) = Inl (AggregateError (rejections (map found_or_throw xs)))"
    by (rule promise_any_none)
  with False show ?thesis by (simp add: all_not_found_def list_all_iff)
qed


lemma rejections_found_or_throw:
  assumes "head_checks E urls w = (xs, w')" and "\<forall>x\<in>set xs. \<not> returns x 200"
  shows "(\<forall>e\<in>set (rejections (map found_or_throw xs)). e = ThrownStatus 404)
         \<longleftrightarrow> (\<forall>x\<in>set xs. returns x 404)"
proof -
  have a: "x \<noteq> Inl (ThrownStatus 404)" if "x \<in> set xs" for x
    using head_checks_rejects[OF assms(1)] that by fastforce
  have b: "\<exists>e. found_or_throw x = Inl e" if "x \<in> set xs" for x
    using assms(2) that found_or_throw_Inr by (metis old.sum.exhaust)
  show ?thesis
  proof
    assume l: "\<forall>e\<in>set (rejections (map found_or_throw xs)). e = ThrownStatus 404"
    show "\<forall>x\<in>set xs. returns x 404"
    proof
      fix x assume x: "x \<in> set xs"
      from b[OF x] obtain e where e: "found_or_throw x = Inl e" ..
      with x have "e \<in> set (rejections (map found_or_throw xs))"
        by (force simp: rejections_mem)
      with l e have "found_or_throw x = Inl (ThrownStatus 404)" by simp
      with a[OF x] show "returns x 404" by (simp add: found_or_throw_404)
    qed
  next
    assume r: "\<forall>x\<in>set xs. returns x 404"
    show "\<forall>e\<in>set (rejections (map found_or_throw xs)). e = ThrownStatus 404"
    proof
      fix e assume "e \<in> set (rejections (map found_or_throw xs))"
      then obtain x where x: "x \<in> set xs" "found_or_throw x = Inl e"
        by (auto simp: rejections_mem)
      with r have "returns x 404" by simp
      with a[OF x(1)] have "found_or_throw x = Inl (ThrownStatus 404)"
        by (simp add: found_or_throw_404)
      with x show "e = ThrownStatus 404" by simp
    qed
  qed
qed

text \<open>
  Claim C1. Whatever the order in which the candidates' checks complete (any settle
  order that covers every candidate), \<^verbatim>\<open>doesAnyFileExist\<close> resolves to true if some
  candidate's HEAD check returns 200; it resolves to false if and only if every
  candidate returns 404; and if no candidate returns 200 and some candidate returns a
  status other than 404, it fails with the aggregate error instead of resolving.
\<close>

theorem doesAnyFileExist_first_success_wins:
  assumes sched: "set (settle_order E (length w) (length urls)) = {..<length urls}"
  shows "((\<exists>x\<in>set (fst (head_checks E urls w)). returns x 200)
            \<longrightarrow> fst (doesAnyFileExist E urls w) = Inr True)
       \<and> (fst (doesAnyFileExist E urls w) = Inr False
            \<longleftrightarrow> (\<forall>x\<in>set (fst (head_checks E urls w)). returns x 404))
       \<and> ((\<forall>x\<in>set (fst (head_checks E urls w)). \<not> returns x 200)
            \<and> (\<exists>x\<in>set (fst (head_checks E urls w)). \<exists>s. s \<noteq> 404 \<and> returns x s)
            \<longrightarrow> (\<exists>errors. fst (doesAnyFileExist E urls w) = Inl (AggregateError errors)))"
proof -
  obtain xs w' where hc: "head_checks E urls w = (xs, w')" by (cases "head_checks E urls w")
  have len: "length xs = length urls" using hc by (rule head_checks_length)
  have res: "fst (doesAnyFileExist E urls w) =
     (if \<exists>x\<in>set xs. returns x 200 then Inr True
      else if \<forall>e\<in>set (rejections (map found_or_throw xs)). e = ThrownStatus 404 then Inr False
      else Inl (AggregateError (rejections (map found_or_throw xs))))"
    using probe_result[of "settle_order E (length w) (length urls)" xs] sched len
    by (simp add: doesAnyFileExist_def hc)
  have excl: "\<not> returns x 404" if "returns x 200" for x
    using that by (auto simp: returns_def split: sum.splits)
  have once: "s = 404" if "returns x s" "returns x 404" for x s
    using that by (auto simp: returns_def split: sum.splits)
  show ?thesis
  proof (cases "\<exists>x\<in>set xs. returns x 200")
    case True
    with res excl show ?thesis by (auto simp: hc)
  next
    case False
    then have no: "\<forall>x\<in>set xs. \<not> returns x 200" by simp
    note eq = rejections_found_or_throw[OF hc no]
    show ?thesis
    proof (cases "\<forall>x\<in>set xs. returns x 404")
      case True
      with res False eq once show ?thesis by (auto simp: hc)
    next
      case all: False
      with res False eq show ?thesis by (auto simp: hc)
    qed
  qed
qed

lemma demo_settle: "set (settle_order demo_env n k) = {..<k}"
  by (auto simp: demo_env_def)

lemma demo_head:
  "fst (fetchWithRetryAndLogging demo_env (JStr ''A'') m w) = Inr (page 404 [])"
  "fst (fetchWithRetryAndLogging demo_env (JStr ''B'') m w) = Inr (page 200 [])"
  "fst (fetchWithRetryAndLogging demo_env (JStr ''C'') m w) = Inr (page 500 [])"
  by (simp_all add: demo_env_def fetchWithRetryAndLogging_def fetch_def)

lemma head_checks_fst:
  "fst (head_checks E (url # urls) w) =
     fst (fetchWithRetryAndLogging E url HEAD w)
     # fst (head_checks E urls (snd (fetchWithRetryAndLogging E url HEAD w)))"
  by (simp split: prod.splits)

text \<open>
  The three cases on candidates answering 404, 200, 500; then 404, 404; then 404, 500.
\<close>

theorem doesAnyFileExist_first_success_wins_witness:
  "fst (doesAnyFileExist demo_env [JStr ''A'', JStr ''B'', JStr ''C''] []) = Inr True
   \<and> fst (doesAnyFileExist demo_env [JStr ''A'', JStr ''A''] []) = Inr False
   \<and> (\<exists>errors. fst (doesAnyFileExist demo_env [JStr ''A'', JStr ''C''] []) = Inl (AggregateError errors))"
proof -
  have 1: "fst (doesAnyFileExist demo_env [JStr ''A'', JStr ''B'', JStr ''C''] []) = Inr True"
    using doesAnyFileExist_first_success_wins[of demo_env "[]" "[JStr ''A'', JStr ''B'', JStr ''C'']", OF demo_settle]
    by (simp del: head_checks.simps(2) add: head_checks_fst demo_head returns_def page_def)
  have 2: "fst (doesAnyFileExist demo_env [JStr ''A'', JStr ''A''] []) = Inr False"
    using doesAnyFileExist_first_success_wins[of demo_env "[]" "[JStr ''A'', JStr ''A'']", OF demo_settle]
    by (simp del: head_checks.simps(2) add: head_checks_fst demo_head returns_def page_def)
  have 3: "\<exists>errors. fst (doesAnyFileExist demo_env [JStr ''A'', JStr ''C''] []) = Inl (AggregateError errors)"
    using doesAnyFileExist_first_success_wins[of demo_env "[]" "[JStr ''A'', JStr ''C'']", OF demo_settle]
    by (simp del: head_checks.simps(2) add: head_checks_fst demo_head returns_def page_def)
  from 1 2 3 show ?thesis by blast
qed

section \<open>Collectors skip what is already collected\<close>

lemma for_each_repo_skips:
  assumes skip: "\<And>r w. P r \<Longrightarrow> f r w = (None, r, w)"
  shows "for_each_repo f rs w = (e, rs', w') \<Longrightarrow>
         length rs' = length rs \<and> (\<forall>i<length rs. P (rs ! i) \<longrightarrow> rs' ! i = rs ! i)"
proof (induction rs arbitrary: w e rs' w')
  case Nil
  then show ?case by simp
next
  case (Cons r rs)
  obtain e1 r1 w1 where f: "f r w = (e1, r1, w1)" by (cases "f r w")
  have r1: "P r \<Longrightarrow> r1 = r" using skip[of r w] f by simp
  show ?case
  proof (cases e1)
    case (Some err)
    with Cons.prems f have "rs' = r1 # rs" by simp
    with r1 show ?thesis by (auto simp: nth_Cons split: nat.splits)
  next
    case None
    obtain e2 rs2 w2 where g: "for_each_repo f rs w1 = (e2, rs2, w2)"
      by (cases "for_each_repo f rs w1")
    with Cons.prems f None have rs': "rs' = r1 # rs2" by simp
    from Cons.IH[OF g] r1 rs' show ?thesis by (auto simp: nth_Cons split: nat.splits)
  qed
qed

lemma for_each_repo_all_skip:
  assumes skip: "\<And>r w. P r \<Longrightarrow> f r w = (None, r, w)"
  shows "list_all P rs \<Longrightarrow> for_each_repo f rs w = (None, rs, w)"
  by (induction rs arbitrary: w) (simp_all add: skip)

lemma collector_step_skip:
  "hasOwnProperty r (target_key c) \<Longrightarrow> collector_step E c r w = (None, r, w)"
  by (cases c)
     (simp_all add: getContributorCounts_repo_def getWorkflows_repo_def
        getCommunityProfileMetrics_repo_def getReadmeLengths_repo_def getLanguages_repo_def
        getSupportFiles_repo_def getEnvironments_repo_def getFundingFiles_repo_def
        getDeployments_repo_def getReleases_repo_def getIssueLabelsCount_repo_def
        getMilestones_repo_def getSecurityFiles_repo_def getCodeowners_repo_def
        getChangelog_repo_def getCodespaces_repo_def getDiscussions_repo_def
        getDependabot_repo_def)

text \<open>The named collectors are the loops over these bodies.\<close>

lemma run_collector_named:
  "run_collector E GetContributorCounts = getContributorCounts E"
  "run_collector E GetWorkflows = getWorkflows E"
  "run_collector E GetCommunityProfileMetrics = getCommunityProfileMetrics E"
  "run_collector E GetReadmeLengths = getReadmeLengths E"
  "run_collector E GetLanguages = getLanguages E"
  "run_collector E GetSupportFiles = getSupportFiles E"
  "run_collector E GetEnvironments = getEnvironments E"
  "run_collector E GetFundingFiles = getFundingFiles E"
  "run_collector E GetDeployments = getDeployments E"
  "run_collector E GetReleases = getReleases E"
  "run_collector E GetIssueLabelsCount = getIssueLabelsCount E"
  "run_collector E GetMilestones = getMilestones E"
  "run_collector E GetSecurityFiles = getSecurityFiles E"
  "run_collector E GetCodeowners = getCodeowners E"
  "run_collector E GetChangelog = getChangelog E"
  "run_collector E GetCodespaces = getCodespaces E"
  "run_collector E GetDiscussions = getDiscussions E"
  "run_collector E GetDependabot = getDependabot E"
  by (simp_all add: run_collector_def getContributorCounts_def getWorkflows_def
        getCommunityProfileMetrics_def getReadmeLengths_def getLanguages_def
        getSupportFiles_def getEnvironments_def getFundingFiles_def getDeployments_def
        getReleases_def getIssueLabelsCount_def getMilestones_def getSecurityFiles_def
        getCodeowners_def getChangelog_def getCodespaces_def getDiscussions_def
        getDependabot_def)

text \<open>
  Claim C2. For every collector and every record that already has the key the
  collector tests (\<open>target_key\<close>), whatever value the key holds, the body of the loop
  returns the record unchanged and the world unchanged, so no request is issued for
  it. Over a list: if every record has the key, the collector changes nothing and
  issues no request; and in any run, also one that ends in a throw, each record that
  has the key is afterwards what it was before.
\<close>

theorem collector_skips_present_attribute:
  "(r (target_key c) = Some v \<longrightarrow> collector_step E c r w = (None, r, w))
   \<and> (list_all (\<lambda>r. hasOwnProperty r (target_key c)) rs \<longrightarrow> run_collector E c rs w = (None, rs, w))
   \<and> (run_collector E c rs w = (e, rs', w') \<longrightarrow>
        length rs' = length rs
        \<and> (\<forall>i<length rs. hasOwnProperty (rs ! i) (target_key c) \<longrightarrow> rs' ! i = rs ! i))"
proof -
  have 1: "r (target_key c) = Some v \<longrightarrow> collector_step E c r w = (None, r, w)"
    using collector_step_skip[of r c E w] by (simp add: hasOwnProperty_def)
  have 2: "list_all (\<lambda>r. hasOwnProperty r (target_key c)) rs \<longrightarrow> run_collector E c rs w = (None, rs, w)"
    unfolding run_collector_def
    using for_each_repo_all_skip[of "\<lambda>r. hasOwnProperty r (target_key c)" "collector_step E c" rs w]
    by (simp add: collector_step_skip)
  have 3: "run_collector E c rs w = (e, rs', w') \<longrightarrow>
        length rs' = length rs
        \<and> (\<forall>i<length rs. hasOwnProperty (rs ! i) (target_key c) \<longrightarrow> rs' ! i = rs ! i)"
    unfolding run_collector_def
    using for_each_repo_skips[of "\<lambda>r. hasOwnProperty r (target_key c)" "collector_step E c" rs w e rs' w']
    by (simp add: collector_step_skip)
  from 1 2 3 show ?thesis by blast
qed


text \<open>
  A record whose \<open>has_deployments\<close> is false, one whose \<open>readme_size\<close> is zero, and two
  whose \<open>environments\<close> is the empty list: all skipped, no request in the world.
\<close>

theorem collector_skips_present_attribute_witness:
  "collector_step demo_env GetDeployments ((octo ''solo'')(''has_deployments'' \<mapsto> JBool False)) []
     = (None, (octo ''solo'')(''has_deployments'' \<mapsto> JBool False), [])
   \<and> collector_step demo_env GetReadmeLengths ((octo ''solo'')(''readme_size'' \<mapsto> JNum (Num 0))) []
     = (None, (octo ''solo'')(''readme_size'' \<mapsto> JNum (Num 0)), [])
   \<and> run_collector demo_env GetEnvironments
        [(octo ''solo'')(''environments'' \<mapsto> JArr []), (octo ''many'')(''environments'' \<mapsto> JArr [])] []
     = (None, [(octo ''solo'')(''environments'' \<mapsto> JArr []), (octo ''many'')(''environments'' \<mapsto> JArr [])], [])"
  using collector_skips_present_attribute
          [of "(octo ''solo'')(''has_deployments'' \<mapsto> JBool False)" GetDeployments "JBool False"
              demo_env "[]" "[]"]
        collector_skips_present_attribute
          [of "(octo ''solo'')(''readme_size'' \<mapsto> JNum (Num 0))" GetReadmeLengths "JNum (Num 0)"
              demo_env "[]" "[]"]
        collector_skips_present_attribute
          [of "octo ''solo''" GetEnvironments JNull demo_env "[]"
              "[(octo ''solo'')(''environments'' \<mapsto> JArr []), (octo ''many'')(''environments'' \<mapsto> JArr [])]"]
  by (simp add: hasOwnProperty_def)

section \<open>What the collectors leave alone\<close>

text \<open>
  The body of a collector assigns only the attributes listed for it, whatever the
  network answers and whether or not it throws.
\<close>

lemma assign_exists_frame:
  "assign_exists E key urls r w = (e, r', w') \<Longrightarrow> k \<noteq> key \<Longrightarrow> r' k = r k"
  by (auto simp: assign_exists_def split: prod.splits sum.splits)

lemma readme_location_frame:
  "readme_location E fv r = (e, r') \<Longrightarrow> k \<noteq> ''rawReadmeUrl'' \<Longrightarrow> k \<noteq> ''readme_size'' \<Longrightarrow> r' k = r k"
  by (auto simp: readme_location_def Let_def split: if_splits sum.splits jsval.splits)

lemma getCommunityProfileMetrics_frame:
  assumes "getCommunityProfileMetrics_repo E r w = (e, r', w')"
    and "k \<notin> set (assigned_keys GetCommunityProfileMetrics)"
  shows "r' k = r k"
proof (cases "hasOwnProperty r ''has_code_of_conduct''")
  case True
  with assms show ?thesis by (simp add: getCommunityProfileMetrics_repo_def)
next
  case False
  with assms show ?thesis
    by (auto simp: getCommunityProfileMetrics_repo_def Let_def
             split: prod.splits sum.splits dest!: readme_location_frame[where k = k])
qed

lemma collector_step_frame:
  assumes "collector_step E c r w = (e, r', w')" and "k \<notin> set (assigned_keys c)"
  shows "r' k = r k"
proof (cases c)
  case GetCommunityProfileMetrics
  with assms show ?thesis using getCommunityProfileMetrics_frame by simp
next
  case GetContributorCounts
  with assms show ?thesis
    by (auto simp: getContributorCounts_repo_def Let_def split: if_splits prod.splits sum.splits option.splits)
next
  case GetWorkflows
  with assms show ?thesis
    by (auto simp: getWorkflows_repo_def Let_def split: if_splits prod.splits sum.splits)
next
  case GetReadmeLengths
  with assms show ?thesis
    by (auto simp: getReadmeLengths_repo_def split: if_splits prod.splits sum.splits)
next
  case GetLanguages
  with assms show ?thesis
    by (auto simp: getLanguages_repo_def split: if_splits prod.splits sum.splits)
next
  case GetSupportFiles
  with assms show ?thesis
    by (auto simp: getSupportFiles_repo_def Let_def split: if_splits dest: assign_exists_frame)
next
  case GetEnvironments
  with assms show ?thesis
    by (auto simp: getEnvironments_repo_def split: if_splits prod.splits sum.splits jsval.splits)
next
  case GetFundingFiles
  with assms show ?thesis
    by (auto simp: getFundingFiles_repo_def split: if_splits dest: assign_exists_frame)
next
  case GetDeployments
  with assms show ?thesis
    by (auto simp: getDeployments_repo_def split: if_splits prod.splits sum.splits)
next
  case GetReleases
  with assms show ?thesis
    by (auto simp: getReleases_repo_def Let_def split: if_splits prod.splits sum.splits)
next
  case GetIssueLabelsCount
  with assms show ?thesis
    by (auto simp: getIssueLabelsCount_repo_def Let_def split: if_splits prod.splits sum.splits)
next
  case GetMilestones
  with assms show ?thesis
    by (auto simp: getMilestones_repo_def Let_def split: if_splits prod.splits sum.splits)
next
  case GetSecurityFiles
  with assms show ?thesis
    by (auto simp: getSecurityFiles_repo_def Let_def split: if_splits dest: assign_exists_frame)
next
  case GetCodeowners
  with assms show ?thesis
    by (auto simp: getCodeowners_repo_def Let_def split: if_splits dest: assign_exists_frame)
next
  case GetChangelog
  with assms show ?thesis
    by (auto simp: getChangelog_repo_def Let_def split: if_splits dest: assign_exists_frame)
next
  case GetCodespaces
  with assms show ?thesis
    by (auto simp: getCodespaces_repo_def Let_def split: if_splits dest: assign_exists_frame)
next
  case GetDiscussions
  with assms show ?thesis
    by (auto simp: getDiscussions_repo_def split: if_splits dest: assign_exists_frame)
next
  case GetDependabot
  with assms show ?thesis
    by (auto simp: getDependabot_repo_def Let_def split: if_splits dest: assign_exists_frame)
qed

lemma for_each_repo_frame:
  assumes "\<And>r w e r' w'. f r w = (e, r', w') \<Longrightarrow> Q r' = Q r"
  shows "for_each_repo f rs w = (e, rs', w') \<Longrightarrow> map Q rs' = map Q rs"
proof (induction rs arbitrary: w e rs' w')
  case Nil
  then show ?case by simp
next
  case (Cons r rs)
  obtain e1 r1 w1 where f: "f r w = (e1, r1, w1)" by (cases "f r w")
  then have q: "Q r1 = Q r" by (rule assms)
  show ?case
  proof (cases e1)
    case (Some err)
    with Cons.prems f q show ?thesis by auto
  next
    case None
    obtain e2 rs2 w2 where g: "for_each_repo f rs w1 = (e2, rs2, w2)"
      by (cases "for_each_repo f rs w1")
    with Cons.prems f None have "rs' = r1 # rs2" by simp
    with Cons.IH[OF g] q show ?thesis by simp
  qed
qed

lemma collector_step_scored:
  assumes "collector_step E c r w = (e, r', w')" and "c \<noteq> GetContributorCounts"
  shows "scored r' = scored r"
proof -
  have "k \<notin> set (assigned_keys c)"
    if "k = ''owner'' \<or> k = ''repo'' \<or> k = ''contributor_count''" for k
    using that assms(2) by (cases c) auto
  then show ?thesis
    using collector_step_frame[OF assms(1)] by (simp add: scored_def)
qed

lemma run_collector_scored:
  "run_collector E c rs w = (e, rs', w') \<Longrightarrow> c \<noteq> GetContributorCounts \<Longrightarrow>
   map scored rs' = map scored rs"
  unfolding run_collector_def
  by (erule for_each_repo_frame[rotated]) (rule collector_step_scored)

lemma run_sequence_scored:
  "run_sequence E cs rs w = (e, rs', w') \<Longrightarrow> GetContributorCounts \<notin> set cs \<Longrightarrow>
   map scored rs' = map scored rs"
proof (induction cs arbitrary: rs w)
  case Nil
  then show ?case by simp
next
  case (Cons c cs)
  obtain e1 rs1 w1 where c: "run_collector E c rs w = (e1, rs1, w1)"
    by (cases "run_collector E c rs w")
  from Cons.prems(2) have ne: "c \<noteq> GetContributorCounts" by auto
  note s1 = run_collector_scored[OF c ne]
  show ?case
  proof (cases e1)
    case (Some err)
    with Cons.prems(1) c s1 show ?thesis by simp
  next
    case None
    with Cons.prems(1) c have "run_sequence E cs rs1 w1 = (e, rs', w')" by simp
    from Cons.IH[OF this] Cons.prems(2) s1 show ?thesis by simp
  qed
qed

lemma details_without_counts: "GetContributorCounts \<notin> set (take n details_sequence)"
  by (auto simp: details_sequence_def dest!: in_set_takeD)

lemma truthy_json_value: "truthy (json_value v) = truthy v"
  by (cases v rule: json_value.cases) simp_all

lemma truthy_json_repo: "truthy (getp (json_repo r) k) = truthy (getp r k)"
  by (simp add: getp_def json_repo_def truthy_json_value split: option.splits)

lemma scored_truthy:
  "scored r' = scored r \<Longrightarrow> truthy (getp r' ''contributor_count'') = truthy (getp r ''contributor_count'')"
  by (simp add: scored_def getp_def)

text \<open>
  No collector takes anything away: what a record has collected it keeps, through the
  body of every collector, every loop and every sequence of collectors, also when one
  of them throws.
\<close>

lemma assigned_keys_single:
  "c \<noteq> GetCommunityProfileMetrics \<Longrightarrow> assigned_keys c = [target_key c]"
  by (cases c) simp_all

lemma collector_step_keeps:
  assumes "collector_step E c r w = (e, r', w')"
  shows "keeps_collected r r'"
  unfolding keeps_collected_def
proof (intro allI impI, elim conjE)
  fix k v
  assume rk: "r k = Some v"
    and guard: "k \<in> set (assigned_keys GetCommunityProfileMetrics)
                 \<longrightarrow> hasOwnProperty r ''has_code_of_conduct''"
  show "r' k = Some v"
  proof (cases "k \<in> set (assigned_keys c)")
    case False
    with collector_step_frame[OF assms] rk show ?thesis by simp
  next
    case True
    have "hasOwnProperty r (target_key c)"
    proof (cases "c = GetCommunityProfileMetrics")
      case True
      with \<open>k \<in> set (assigned_keys c)\<close> guard show ?thesis by simp
    next
      case False
      with True rk show ?thesis by (simp add: assigned_keys_single hasOwnProperty_def)
    qed
    from collector_step_skip[OF this, of E w] assms rk show ?thesis by simp
  qed
qed

lemma keeps_collected_refl: "keeps_collected r r"
  by (simp add: keeps_collected_def)

lemma keeps_collected_trans:
  assumes "keeps_collected a b" and "keeps_collected b c"
  shows "keeps_collected a c"
  unfolding keeps_collected_def
proof (intro allI impI, elim conjE)
  fix k v
  assume ak: "a k = Some v"
    and guard: "k \<in> set (assigned_keys GetCommunityProfileMetrics)
                 \<longrightarrow> hasOwnProperty a ''has_code_of_conduct''"
  from assms(1) ak guard have bk: "b k = Some v" by (simp add: keeps_collected_def)
  have "hasOwnProperty b ''has_code_of_conduct''"
    if "k \<in> set (assigned_keys GetCommunityProfileMetrics)"
  proof -
    from that guard obtain u where u: "a ''has_code_of_conduct'' = Some u"
      by (auto simp: hasOwnProperty_def)
    then have "hasOwnProperty a ''has_code_of_conduct''" by (simp add: hasOwnProperty_def)
    with assms(1) u have "b ''has_code_of_conduct'' = Some u"
      unfolding keeps_collected_def by blast
    then show ?thesis by (simp add: hasOwnProperty_def)
  qed
  with assms(2) bk show "c k = Some v" unfolding keeps_collected_def by blast
qed

lemma for_each_repo_keeps:
  assumes step: "\<And>r w e r' w'. f r w = (e, r', w') \<Longrightarrow> keeps_collected r r'"
  shows "for_each_repo f rs w = (e, rs', w') \<Longrightarrow> list_all2 keeps_collected rs rs'"
proof (induction rs arbitrary: w e rs' w')
  case Nil
  then show ?case by simp
next
  case (Cons r rs)
  obtain e1 r1 w1 where f: "f r w = (e1, r1, w1)" by (cases "f r w")
  then have k: "keeps_collected r r1" by (rule step)
  show ?case
  proof (cases e1)
    case (Some err)
    with Cons.prems f have "rs' = r1 # rs" by simp
    with k show ?thesis by (simp add: list_all2_refl keeps_collected_refl)
  next
    case None
    obtain e2 rs2 w2 where g: "for_each_repo f rs w1 = (e2, rs2, w2)"
      by (cases "for_each_repo f rs w1")
    with Cons.prems f None have "rs' = r1 # rs2" by simp
    with Cons.IH[OF g] k show ?thesis by simp
  qed
qed

lemma run_collector_keeps:
  "run_collector E c rs w = (e, rs', w') \<Longrightarrow> list_all2 keeps_collected rs rs'"
  unfolding run_collector_def
  by (erule for_each_repo_keeps[rotated]) (rule collector_step_keeps)

lemma list_all2_keeps_trans:
  "list_all2 keeps_collected xs ys \<Longrightarrow> list_all2 keeps_collected ys zs \<Longrightarrow>
   list_all2 keeps_collected xs zs"
  by (rule list_all2_trans[of keeps_collected keeps_collected keeps_collected])
     (blast intro: keeps_collected_trans)+

lemma run_sequence_keeps:
  "run_sequence E cs rs w = (e, rs', w') \<Longrightarrow> list_all2 keeps_collected rs rs'"
proof (induction cs arbitrary: rs w)
  case Nil
  then show ?case by (simp add: list_all2_refl keeps_collected_refl)
next
  case (Cons c cs)
  obtain e1 rs1 w1 where c: "run_collector E c rs w = (e1, rs1, w1)"
    by (cases "run_collector E c rs w")
  note k1 = run_collector_keeps[OF c]
  show ?case
  proof (cases e1)
    case (Some err)
    with Cons.prems c k1 show ?thesis by simp
  next
    case None
    with Cons.prems c have "run_sequence E cs rs1 w1 = (e, rs', w')" by simp
    from Cons.IH[OF this] k1 show ?thesis by (rule list_all2_keeps_trans[rotated])
  qed
qed

lemma getContributorCounts_keeps:
  "getContributorCounts E rs w = (e, rs', w') \<Longrightarrow> list_all2 keeps_collected rs rs'"
  using run_collector_keeps[of E GetContributorCounts rs w e rs' w']
  by (simp add: run_collector_named)

lemma getDetails_keeps:
  "getDetails E rs w = (e, rs', w') \<Longrightarrow> list_all2 keeps_collected rs rs'"
  unfolding getDetails_def by (rule run_sequence_keeps)

section \<open>Order of the collectors, and the deployments shortcut\<close>

text \<open>
  The dependency behind the first order: when the community profile names a README,
  the HEAD request of \<^verbatim>\<open>getReadmeLengths\<close> goes to the raw location that
  \<^verbatim>\<open>getCommunityProfileMetrics\<close> has just stored on the record.
\<close>

lemma readme_url_is_consumed:
  assumes fresh: "\<not> hasOwnProperty r ''has_code_of_conduct''" "\<not> hasOwnProperty r ''readme_size''"
    and profile: "api E (length w) (ApiCommunityProfileMetrics (getp r ''owner'') (getp r ''repo''))
                    = Inr (JObj [(''files'', JObj [(''readme'', JObj [(''html_url'', JStr u)])])])"
    and run: "run_sequence E [GetCommunityProfileMetrics, GetReadmeLengths] [r] w = (e, rs, w')"
  shows "e = None
       \<and> take (length w + 2) w' =
           w @ [ApiCall (ApiCommunityProfileMetrics (getp r ''owner'') (getp r ''repo'')),
                Fetch HEAD (JStr (''https://raw.githubusercontent.com/'' @ repo_path E r
                                  @ toStr E (split_second ''blob'' u)))]"
proof -
  let ?url = "JStr (''https://raw.githubusercontent.com/'' @ repo_path E r
                    @ toStr E (split_second ''blob'' u))"
  let ?w1 = "w @ [ApiCall (ApiCommunityProfileMetrics (getp r ''owner'') (getp r ''repo''))]"
  define r1 where "r1 = r(''has_code_of_conduct'' \<mapsto> JBool False,
                          ''has_contributing'' \<mapsto> JBool False,
                          ''has_issue_template'' \<mapsto> JBool False,
                          ''has_pull_request_template'' \<mapsto> JBool False,
                          ''rawReadmeUrl'' \<mapsto> ?url)"
  have path: "repo_path E (r(''has_code_of_conduct'' \<mapsto> a, ''has_contributing'' \<mapsto> b,
                            ''has_issue_template'' \<mapsto> c, ''has_pull_request_template'' \<mapsto> d))
              = repo_path E r" for a b c d
    by (simp add: repo_path_def getp_def)
  have cpm: "getCommunityProfileMetrics_repo E r w = (None, r1, ?w1)"
    using fresh(1) profile
    by (simp add: getCommunityProfileMetrics_repo_def octokit_def readme_location_def path r1_def)
  have url: "getp r1 ''rawReadmeUrl'' = ?url"
    by (simp add: r1_def getp_def)
  have nosize: "\<not> hasOwnProperty r1 ''readme_size''"
    using fresh(2) by (simp add: r1_def hasOwnProperty_def)
  obtain x w2 where f: "fetch E ?url HEAD ?w1 = (x, w2)" by (cases "fetch E ?url HEAD ?w1")
  then have w2: "w2 = ?w1 @ [Fetch HEAD ?url]" by (auto simp: fetch_def)
  obtain e2 r2 w3 where rl: "getReadmeLengths_repo E r1 ?w1 = (e2, r2, w3)"
    by (cases "getReadmeLengths_repo E r1 ?w1")
  have "e2 = None \<and> take (length w + 2) w3 = ?w1 @ [Fetch HEAD ?url]"
    using rl nosize url f w2
    by (auto simp: getReadmeLengths_repo_def fetchWithRetryAndLogging_def fetch_def
             split: sum.splits prod.splits if_splits option.splits)
  with run cpm rl show ?thesis by (simp add: run_collector_def)
qed

lemma getDeployments_no_environments:
  "getp r ''environments'' = JArr [] \<Longrightarrow>
   getDeployments_repo E r w =
     (None, if hasOwnProperty r ''has_deployments'' then r else r(''has_deployments'' \<mapsto> JBool False), w)"
  by (simp add: getDeployments_repo_def)




section \<open>Merging without duplicates\<close>

lemma strict_eq_plain: "plain a \<Longrightarrow> strict_eq s a b = (a = b)"
  by (cases "(s, a, b)" rule: strict_eq.cases) auto

lemma same_identity_plain:
  "identified r \<Longrightarrow> same_identity s r x = (identity r = identity x)"
  by (auto simp: identified_def same_identity_def identity_def strict_eq_plain)

lemma findIndex_from_range:
  "findIndex_from m q xs = - 1 \<or> (int m \<le> findIndex_from m q xs \<and> findIndex_from m q xs < int (m + length xs))"
  by (induction xs arbitrary: m) (auto, force+)

lemma findIndex_from_miss:
  "(findIndex_from m q xs = - 1) = (\<forall>i<length xs. \<not> q (xs ! i) (m + i))"
proof (induction xs arbitrary: m)
  case Nil
  then show ?case by simp
next
  case (Cons a as)
  have "(\<forall>i<length (a # as). \<not> q ((a # as) ! i) (m + i))
        = (\<not> q a m \<and> (\<forall>i<length as. \<not> q (as ! i) (Suc m + i)))"
    by (simp add: All_less_Suc2)
  with Cons.IH[of "Suc m"] show ?case by simp
qed

lemma findIndex_from_append_hit:
  "findIndex_from m q xs \<noteq> - 1 \<Longrightarrow> findIndex_from m q (xs @ ys) = findIndex_from m q xs"
  by (induction xs arbitrary: m) auto

lemma findIndex_from_append_miss:
  "findIndex_from m q xs = - 1 \<Longrightarrow>
   findIndex_from m q (xs @ ys) = findIndex_from (m + length xs) q ys"
  by (induction xs arbitrary: m) (auto split: if_splits)

text \<open>
  The element at position \<open>length pre\<close> is its own first match exactly when nothing
  before it matches and it matches itself.
\<close>

lemma findIndex_at:
  "(int (length pre) = findIndex_from 0 q (pre @ x # xs)) =
     ((\<forall>i<length pre. \<not> q (pre ! i) i) \<and> q x (length pre))"
proof (cases "findIndex_from 0 q pre = - 1")
  case True
  then have eq: "findIndex_from 0 q (pre @ x # xs) = findIndex_from (length pre) q (x # xs)"
    using findIndex_from_append_miss[of 0 q pre "x # xs"] by simp
  have none: "\<forall>i<length pre. \<not> q (pre ! i) i"
    using True findIndex_from_miss[of 0 q pre] by simp
  have later: "findIndex_from (Suc (length pre)) q xs \<noteq> int (length pre)"
    using findIndex_from_range[of "Suc (length pre)" q xs] by auto
  show ?thesis
  proof (cases "q x (length pre)")
    case True
    with eq none show ?thesis by simp
  next
    case False
    with eq later show ?thesis by simp
  qed
next
  case False
  then have eq: "findIndex_from 0 q (pre @ x # xs) = findIndex_from 0 q pre"
    by (rule findIndex_from_append_hit)
  have some: "\<not> (\<forall>i<length pre. \<not> q (pre ! i) i)"
    using False findIndex_from_miss[of 0 q pre] by simp
  have "findIndex_from 0 q pre \<noteq> int (length pre)"
    using findIndex_from_range[of 0 q pre] by auto
  with eq some show ?thesis by simp
qed

lemma removeDuplicateRepos_from:
  "list_all identified (pre @ xs) \<Longrightarrow>
   filter_from (length pre)
     (\<lambda>rp i. int i = findIndex_from 0 (\<lambda>r j. same_identity (j = i) r rp) (pre @ xs)) xs
   = keep_first pre xs"
proof (induction xs arbitrary: pre)
  case Nil
  then show ?case by simp
next
  case (Cons x xs)
  have idp: "\<forall>i<length pre. identified (pre ! i)"
    using Cons.prems by (simp add: list_all_iff)
  have head: "(int (length pre) =
               findIndex_from 0 (\<lambda>r j. same_identity (j = length pre) r x) (pre @ x # xs))
              = (identity x \<notin> set (map identity pre))"
  proof -
    have "(\<forall>i<length pre. \<not> same_identity (i = length pre) (pre ! i) x)
          = (identity x \<notin> set (map identity pre))"
    proof
      assume l: "\<forall>i<length pre. \<not> same_identity (i = length pre) (pre ! i) x"
      show "identity x \<notin> set (map identity pre)"
      proof
        assume "identity x \<in> set (map identity pre)"
        then obtain i where i: "i < length pre" "identity (pre ! i) = identity x"
          by (auto simp: in_set_conv_nth)
        with idp have "same_identity (i = length pre) (pre ! i) x"
          by (simp add: same_identity_plain)
        with l i show False by simp
      qed
    next
      assume r: "identity x \<notin> set (map identity pre)"
      show "\<forall>i<length pre. \<not> same_identity (i = length pre) (pre ! i) x"
      proof (intro allI impI)
        fix i assume i: "i < length pre"
        with r have "identity (pre ! i) \<noteq> identity x" by (metis length_map nth_map nth_mem)
        with idp i show "\<not> same_identity (i = length pre) (pre ! i) x"
          by (simp add: same_identity_plain)
      qed
    qed
    moreover have "same_identity (length pre = length pre) x x"
      using Cons.prems by (simp add: same_identity_plain)
    ultimately show ?thesis by (simp add: findIndex_at)
  qed
  have "list_all identified ((pre @ [x]) @ xs)" using Cons.prems by simp
  from Cons.IH[OF this] have tail:
    "filter_from (Suc (length pre))
       (\<lambda>rp i. int i = findIndex_from 0 (\<lambda>r j. same_identity (j = i) r rp) (pre @ x # xs)) xs
     = keep_first (pre @ [x]) xs" by simp
  show ?case using head tail by simp
qed

lemma removeDuplicateRepos_keep_first:
  "list_all identified rs \<Longrightarrow> removeDuplicateRepos rs = keep_first [] rs"
  using removeDuplicateRepos_from[of "[]" rs] by (simp add: removeDuplicateRepos_def)

lemma keep_first_identities:
  "set (map identity (keep_first seen xs)) = set (map identity xs) - set (map identity seen)"
proof (induction xs arbitrary: seen)
  case Nil
  then show ?case by simp
next
  case (Cons x xs)
  define K where "K = set (map identity (keep_first (seen @ [x]) xs))"
  define A where "A = set (map identity xs)"
  define S where "S = set (map identity seen)"
  define ix where "ix = identity x"
  have k: "K = A - (S \<union> {ix})"
    unfolding K_def A_def S_def ix_def using Cons.IH[of "seen @ [x]"] by simp
  have "set (map identity (keep_first seen (x # xs))) = (if ix \<in> S then K else insert ix K)"
    unfolding K_def S_def ix_def by simp
  also have "\<dots> = insert ix A - S" using k by auto
  also have "insert ix A = set (map identity (x # xs))" unfolding A_def ix_def by simp
  finally show ?case unfolding S_def .
qed

lemma keep_first_distinct: "distinct (map identity (keep_first seen xs))"
proof (induction xs arbitrary: seen)
  case Nil
  then show ?case by simp
next
  case (Cons x xs)
  have "identity x \<notin> set (map identity (keep_first (seen @ [x]) xs))"
    by (simp only: keep_first_identities) simp
  with Cons.IH[of "seen @ [x]"] show ?case by simp
qed

lemma keep_first_append:
  "keep_first seen (xs @ ys) = keep_first seen xs @ keep_first (seen @ xs) ys"
  by (induction xs arbitrary: seen) auto

lemma keep_first_subset: "set (keep_first seen xs) \<subseteq> set xs"
  by (induction xs arbitrary: seen) auto

lemma find_app:
  "find P (xs @ ys) = (case find P xs of None \<Rightarrow> find P ys | Some x \<Rightarrow> Some x)"
  by (induction xs) auto

lemma find_none: "find P xs = None \<longleftrightarrow> (\<forall>x\<in>set xs. \<not> P x)"
  by (induction xs) auto

lemma keep_first_is_first:
  "r \<in> set (keep_first seen xs) \<Longrightarrow>
   find (\<lambda>x. identity x = identity r) (seen @ xs) = Some r"
proof (induction xs arbitrary: seen)
  case Nil
  then show ?case by simp
next
  case (Cons x xs)
  show ?case
  proof (cases "r \<in> set (keep_first (seen @ [x]) xs)")
    case True
    from Cons.IH[OF this] show ?thesis by simp
  next
    case False
    with Cons.prems have rx: "r = x" "identity x \<notin> set (map identity seen)"
      by (auto split: if_splits)
    then have "find (\<lambda>y. identity y = identity r) seen = None"
      by (simp add: find_none image_iff) metis
    with rx show ?thesis by (simp add: find_app)
  qed
qed

lemma keep_first_all:
  "distinct (map identity xs) \<Longrightarrow> set (map identity xs) \<inter> set (map identity seen) = {} \<Longrightarrow>
   keep_first seen xs = xs"
  by (induction xs arbitrary: seen) auto


text \<open>
  Claim C3. For saved records followed by discovered ones, all with plain owner and
  name: \<open>removeDuplicateRepos\<close> keeps the first record of every identity (it is
  \<open>keep_first\<close>), so the merged list has each identity of the input exactly once, and
  every record kept is the first of the input with its identity. The merged list is
  the merge of the saved records alone, followed by the discovered records whose
  identity no saved record has; a saved list without duplicates is kept whole, each
  record as it was, with every attribute it had collected.
\<close>

theorem merge_keeps_first_per_identity:
  assumes "list_all identified (saved @ discovered)"
  shows "removeDuplicateRepos (saved @ discovered) = keep_first [] (saved @ discovered)
       \<and> distinct (map identity (removeDuplicateRepos (saved @ discovered)))
       \<and> set (map identity (removeDuplicateRepos (saved @ discovered)))
           = set (map identity (saved @ discovered))
       \<and> (\<forall>r\<in>set (removeDuplicateRepos (saved @ discovered)).
             find (\<lambda>x. identity x = identity r) (saved @ discovered) = Some r)
       \<and> removeDuplicateRepos (saved @ discovered)
           = removeDuplicateRepos saved @ keep_first saved discovered
       \<and> (\<forall>r\<in>set (keep_first saved discovered).
             r \<in> set discovered \<and> identity r \<notin> set (map identity saved))
       \<and> (distinct (map identity saved) \<longrightarrow> removeDuplicateRepos saved = saved)"
proof -
  have eq: "removeDuplicateRepos (saved @ discovered) = keep_first [] (saved @ discovered)"
    using assms by (rule removeDuplicateRepos_keep_first)
  have eqs: "removeDuplicateRepos saved = keep_first [] saved"
    using assms by (simp add: removeDuplicateRepos_keep_first)
  have 2: "distinct (map identity (removeDuplicateRepos (saved @ discovered)))"
    unfolding eq by (rule keep_first_distinct)
  have 3: "set (map identity (removeDuplicateRepos (saved @ discovered)))
           = set (map identity (saved @ discovered))"
    unfolding eq keep_first_identities by simp
  have 4: "\<forall>r\<in>set (removeDuplicateRepos (saved @ discovered)).
             find (\<lambda>x. identity x = identity r) (saved @ discovered) = Some r"
    unfolding eq using keep_first_is_first[of _ "[]" "saved @ discovered"] by simp
  have 5: "removeDuplicateRepos (saved @ discovered)
           = removeDuplicateRepos saved @ keep_first saved discovered"
    unfolding eq eqs by (simp add: keep_first_append)
  have 6: "\<forall>r\<in>set (keep_first saved discovered).
             r \<in> set discovered \<and> identity r \<notin> set (map identity saved)"
  proof
    fix r assume r: "r \<in> set (keep_first saved discovered)"
    then have "identity r \<in> set (map identity (keep_first saved discovered))" by simp
    then have "identity r \<notin> set (map identity saved)"
      unfolding keep_first_identities by simp
    with r keep_first_subset[of saved discovered]
    show "r \<in> set discovered \<and> identity r \<notin> set (map identity saved)" by blast
  qed
  have 7: "distinct (map identity saved) \<longrightarrow> removeDuplicateRepos saved = saved"
    unfolding eqs using keep_first_all[of saved "[]"] by simp
  from eq 2 3 4 5 6 7 show ?thesis by blast
qed

text \<open>
  A saved \<open>octo/solo\<close> with a count of 5, rediscovered together with \<open>octo/many\<close>: the
  saved record stays, the fresh snapshot of \<open>octo/solo\<close> is dropped.
\<close>

theorem merge_keeps_first_per_identity_witness:
  "removeDuplicateRepos
     ([(octo ''solo'')(''contributor_count'' \<mapsto> JNum (Num 5))] @ [octo ''solo'', octo ''many''])
   = [(octo ''solo'')(''contributor_count'' \<mapsto> JNum (Num 5)), octo ''many'']"
  using merge_keeps_first_per_identity
          [of "[(octo ''solo'')(''contributor_count'' \<mapsto> JNum (Num 5))]"
              "[octo ''solo'', octo ''many'']"]
  by (simp add: identified_def identity_def getp_def octo_simps)

section \<open>The batch: what is saved, and what is left out\<close>

lemma batch_start_assigns:
  "batch_start E query sort_by st = (None, st1) \<Longrightarrow> \<exists>rs0. repos st1 = Some rs0"
  by (auto simp: batch_start_def Let_def split: prod.splits sum.splits if_splits)

text \<open>What the try block and the finally block leave behind.\<close>

lemma batch_saved:
  assumes "repos st1 = Some rs0" and "batch_finally (batch_try E st1) = (c, st')"
  shows "\<exists>rs. repos st' = Some rs \<and> files st' ''repos.json'' = Some (JsonFile (map json_repo rs))"
  using assms
  by (auto simp: batch_finally_def batch_try_def writeToArffFile_def Let_def shutdown_def
        writeRawDataToJsonFile_def
      split: prod.splits option.splits sum.splits if_splits completion.splits)

lemma batch_after_counts:
  assumes "repos st1 = Some rs0"
    and "getContributorCounts E rs0 (requests st1) = (None, rs1, w1)"
    and "getDetails E (valid_repos rs1) w1 = (e2, rs2, w2)"
    and "batch_finally (batch_try E st1) = (c, st')"
  shows "repos st' = Some rs2 \<and> files st' ''repos.json'' = Some (JsonFile (map json_repo rs2))
         \<and> (c = Returned \<or> c = Exited \<longrightarrow>
              (\<exists>ds. files st' ''github.arff'' = Some (ArffFile ds) \<and> arff_rows E rs2 = Inr (data_rows ds)))"
  using assms
  by (auto simp: batch_finally_def batch_try_def writeToArffFile_def Let_def shutdown_def
        writeRawDataToJsonFile_def
      split: prod.splits option.splits sum.splits if_splits completion.splits)

text \<open>The two ways a collector ends the batch with a throw.\<close>

lemma batch_count_throw:
  assumes "repos st1 = Some rs0"
    and "getContributorCounts E rs0 (requests st1) = (Some e, rs1, w1)"
    and "batch_finally (batch_try E st1) = (c, st')"
  shows "c = Threw e \<and> repos st' = Some rs1
         \<and> files st' ''repos.json'' = Some (JsonFile (map json_repo rs1))
         \<and> requests st' = w1"
  using assms
  by (auto simp: batch_finally_def batch_try_def writeRawDataToJsonFile_def)

lemma batch_details_throw:
  assumes "repos st1 = Some rs0"
    and "getContributorCounts E rs0 (requests st1) = (None, rs1, w1)"
    and "getDetails E (valid_repos rs1) w1 = (Some e, rs2, w2)"
    and "batch_finally (batch_try E st1) = (c, st')"
  shows "c = Threw e"
  using assms
  by (auto simp: batch_finally_def batch_try_def writeRawDataToJsonFile_def)

text \<open>The saved image of a record keeps every attribute that holds a value.\<close>

lemma json_value_scalar:
  "json_value JNull = JNull" "json_value (JBool b) = JBool b"
  "json_value (JNum (Num n)) = JNum (Num n)" "json_value (JStr t) = JStr t"
  by simp_all

lemma json_repo_keeps:
  "r k = Some v \<Longrightarrow> v \<noteq> JUndefined \<Longrightarrow> json_repo r k = Some (json_value v)"
  by (simp add: json_repo_def)

lemma arff_row_count:
  "arff_row E r = Inr x \<Longrightarrow> lookup x ''contributor_count'' = getp r ''contributor_count''"
  by (auto simp: arff_row_def Let_def split: sum.splits)

lemma arff_rows_Cons:
  "arff_rows E (r # rs) = Inr xs \<Longrightarrow>
   \<exists>y ys. xs = y # ys \<and> arff_row E r = Inr y \<and> arff_rows E rs = Inr ys"
  by (cases "arff_row E r"; cases "arff_rows E rs") auto

lemma arff_rows_count:
  "arff_rows E rs = Inr xs \<Longrightarrow>
   map (\<lambda>x. lookup x ''contributor_count'') xs = map (\<lambda>r. getp r ''contributor_count'') rs"
proof (induction rs arbitrary: xs)
  case Nil
  then show ?case by simp
next
  case (Cons r rs)
  from arff_rows_Cons[OF Cons.prems] obtain y ys where
    "xs = y # ys" "arff_row E r = Inr y" "arff_rows E rs = Inr ys" by blast
  with Cons.IH[of ys] arff_row_count[of E r y] show ?case by simp
qed

lemma arff_rows_length: "arff_rows E rs = Inr xs \<Longrightarrow> length xs = length rs"
proof (induction rs arbitrary: xs)
  case Nil
  then show ?case by simp
next
  case (Cons r rs)
  from arff_rows_Cons[OF Cons.prems] obtain y ys where
    "xs = y # ys" "arff_rows E rs = Inr ys" by blast
  with Cons.IH[of ys] show ?case by simp
qed

lemma scored_list_truthy:
  "map scored xs = map scored ys \<Longrightarrow>
   list_all (\<lambda>r. truthy (getp r ''contributor_count'')) ys \<Longrightarrow>
   list_all (\<lambda>r. truthy (getp r ''contributor_count'')) xs"
proof (induction xs arbitrary: ys)
  case Nil
  then show ?case by simp
next
  case (Cons x xs)
  then obtain y ys' where ys: "ys = y # ys'" by (cases ys) auto
  with Cons.prems have "scored x = scored y" "map scored xs = map scored ys'" by auto
  with Cons.IH[of ys'] Cons.prems(2) ys scored_truthy[of x y] show ?case
    by simp
qed

text \<open>The run of a recovery batch on the demonstration checkpoint, step by step.\<close>

lemma demo_start:
  "batch_start demo_env JUndefined JUndefined demo_checkpoint =
     (None, demo_checkpoint\<lparr>repos :=
        Some [octo ''solo'', (octo ''zero'')(''contributor_count'' \<mapsto> JNum (Num 0))],
        requests := []\<rparr>)"
  by (simp add: batch_start_def demo_checkpoint_def empty_state_def removeDuplicateRepos_def
        same_identity_def getp_def octo_simps Let_def)

lemma demo_solo_page:
  "fetchWithRetryAndLogging demo_env (landing_page demo_env (octo ''solo'')) GET w =
     (Inr (page 200 ''solo''), w @ [Fetch GET (JStr ''https://www.github.com/octo/solo'')])"
  by (simp add: fetchWithRetryAndLogging_def fetch_def landing_page_def repo_path_def getp_def
        octo_simps demo_env_simps)

lemma demo_counts:
  "getContributorCounts demo_env
     [octo ''solo'', (octo ''zero'')(''contributor_count'' \<mapsto> JNum (Num 0))] [] =
   (None,
    [(octo ''solo'')(''contributor_count'' \<mapsto> JNum (Num 1)),
     (octo ''zero'')(''contributor_count'' \<mapsto> JNum (Num 0))],
    [Fetch GET (JStr ''https://www.github.com/octo/solo'')])"
proof -
  have solo: "getContributorCounts_repo demo_env (octo ''solo'') [] =
      (None, (octo ''solo'')(''contributor_count'' \<mapsto> JNum (Num 1)),
       [Fetch GET (JStr ''https://www.github.com/octo/solo'')])"
    by (simp add: getContributorCounts_repo_def demo_solo_page hasOwnProperty_def page_def
          octo_simps demo_env_simps)
  have zero: "getContributorCounts_repo demo_env
      ((octo ''zero'')(''contributor_count'' \<mapsto> JNum (Num 0))) w =
      (None, (octo ''zero'')(''contributor_count'' \<mapsto> JNum (Num 0)), w)" for w
    by (simp add: getContributorCounts_repo_def hasOwnProperty_def)
  show ?thesis by (simp add: getContributorCounts_def solo zero)
qed


lemma demo_workflows:
  "getWorkflows_repo demo_env ((octo ''solo'')(''contributor_count'' \<mapsto> JNum (Num 1))) w =
     (Some FetchFailure, (octo ''solo'')(''contributor_count'' \<mapsto> JNum (Num 1)),
      w @ [Fetch GET (JStr ''https://github.com/octo/solo/tree/undefined/.github/workflows''),
           Fetch GET (JStr ''https://github.com/octo/solo/tree/undefined/.github/workflows'')])"
  by (simp add: getWorkflows_repo_def hasOwnProperty_def octo_simps repo_path_def getp_def
        fetchWithRetryAndLogging_def fetch_def demo_env_simps Let_def)

lemma demo_details:
  "getDetails demo_env [(octo ''solo'')(''contributor_count'' \<mapsto> JNum (Num 1))] w =
     (Some FetchFailure, [(octo ''solo'')(''contributor_count'' \<mapsto> JNum (Num 1))],
      w @ [Fetch GET (JStr ''https://github.com/octo/solo/tree/undefined/.github/workflows''),
           Fetch GET (JStr ''https://github.com/octo/solo/tree/undefined/.github/workflows'')])"
  by (simp add: getDetails_def details_sequence_def run_collector_def demo_workflows)

lemma demo_valid:
  "valid_repos [(octo ''solo'')(''contributor_count'' \<mapsto> JNum (Num 1)),
                (octo ''zero'')(''contributor_count'' \<mapsto> JNum (Num 0))] =
     [(octo ''solo'')(''contributor_count'' \<mapsto> JNum (Num 1))]"
  by (simp add: valid_repos_def getp_def)

lemma demo_batch:
  "doBatch demo_env JUndefined JUndefined demo_checkpoint =
     (Threw FetchFailure,
      \<lparr>repos = Some [(octo ''solo'')(''contributor_count'' \<mapsto> JNum (Num 1))],
       requests =
         [Fetch GET (JStr ''https://www.github.com/octo/solo''),
          Fetch GET (JStr ''https://github.com/octo/solo/tree/undefined/.github/workflows''),
          Fetch GET (JStr ''https://github.com/octo/solo/tree/undefined/.github/workflows'')],
       files = [''repos.json'' \<mapsto>
          JsonFile [json_repo ((octo ''solo'')(''contributor_count'' \<mapsto> JNum (Num 1)))]]\<rparr>)"
  by (simp only: doBatch_def demo_start prod.case option.case)
     (simp add: batch_try_def batch_finally_def demo_counts demo_valid
        demo_details writeRawDataToJsonFile_def demo_checkpoint_def empty_state_def)

text \<open>The same on the checkpoint whose second landing page cannot be fetched.\<close>

lemma ghost_start:
  "batch_start demo_env JUndefined JUndefined ghost_checkpoint =
     (None, ghost_checkpoint\<lparr>repos := Some [octo ''solo'', octo ''ghost''], requests := []\<rparr>)"
  by (simp add: batch_start_def ghost_checkpoint_def empty_state_def removeDuplicateRepos_def
        same_identity_def getp_def octo_simps Let_def)

lemma ghost_counts:
  "getContributorCounts demo_env [octo ''solo'', octo ''ghost''] [] =
     (Some FetchFailure,
      [(octo ''solo'')(''contributor_count'' \<mapsto> JNum (Num 1)), octo ''ghost''],
      [Fetch GET (JStr ''https://www.github.com/octo/solo''),
       Fetch GET (JStr ''https://www.github.com/octo/ghost''),
       Fetch GET (JStr ''https://www.github.com/octo/ghost'')])"
proof -
  have solo: "getContributorCounts_repo demo_env (octo ''solo'') [] =
      (None, (octo ''solo'')(''contributor_count'' \<mapsto> JNum (Num 1)),
       [Fetch GET (JStr ''https://www.github.com/octo/solo'')])"
    by (simp add: getContributorCounts_repo_def demo_solo_page hasOwnProperty_def page_def
          octo_simps demo_env_simps)
  have ghost: "getContributorCounts_repo demo_env (octo ''ghost'') w =
      (Some FetchFailure, octo ''ghost'',
       w @ [Fetch GET (JStr ''https://www.github.com/octo/ghost''),
            Fetch GET (JStr ''https://www.github.com/octo/ghost'')])" for w
    by (simp add: getContributorCounts_repo_def hasOwnProperty_def octo_simps landing_page_def
          repo_path_def getp_def fetchWithRetryAndLogging_def fetch_def demo_env_simps Let_def)
  show ?thesis by (simp add: getContributorCounts_def solo ghost)
qed

text \<open>A throw of the search ends the batch before the global list is assigned: nothing is
  written and the checkpoint file stays as it was.\<close>

lemma discovery_failure_leaves_checkpoint:
  assumes "batch_start E query sort_by st = (Some e, st1)"
  shows "doBatch E query sort_by st = (Threw e, st1) \<and> files st1 = files st \<and> repos st1 = repos st"
  using assms
  by (auto simp: doBatch_def batch_start_def Let_def split: prod.splits sum.splits if_splits)

text \<open>
  Claim C4. For every batch that gets as far as its \<^verbatim>\<open>try\<close> block (the search for new
  repositories did not throw), however it ends - it returns, a collector or the
  dataset writer throws, or the process exits at the size limit - the records as the
  collectors left them are the global list and are what \<^verbatim>\<open>repos.json\<close> holds: the
  list the contributor-count collector left when it is that collector that throws,
  otherwise the list the remaining collectors left of the filtered records, whether
  they threw or not. No throw loses what was collected: the lists the collectors leave
  have every record they were given, with every attribute it had. And for every batch
  whatsoever, also one whose search throws: if the file held the global list when the
  batch began (as it does while the global is still \<^verbatim>\<open>null\<close>), it holds the global
  list when the batch ends.
\<close>

theorem checkpoint_saved_whatever_happens:
  assumes "doBatch E query sort_by st = (c, st')"
  shows "(batch_start E query sort_by st = (None, st1) \<and> repos st1 = Some rs0
            \<and> getContributorCounts E rs0 (requests st1) = (e1, rs1, w1)
            \<and> getDetails E (valid_repos rs1) w1 = (e2, rs2, w2)
          \<longrightarrow> list_all2 keeps_collected rs0 rs1
              \<and> list_all2 keeps_collected (valid_repos rs1) rs2
              \<and> (\<forall>e. e1 = Some e \<longrightarrow>
                    c = Threw e \<and> repos st' = Some rs1
                    \<and> files st' ''repos.json'' = Some (JsonFile (map json_repo rs1)))
              \<and> (e1 = None \<longrightarrow>
                    repos st' = Some rs2
                    \<and> files st' ''repos.json'' = Some (JsonFile (map json_repo rs2))
                    \<and> (\<forall>e. e2 = Some e \<longrightarrow> c = Threw e)))
       \<and> (fst (batch_start E query sort_by st) = None \<longrightarrow>
            (\<exists>rs. repos st' = Some rs
                  \<and> files st' ''repos.json'' = Some (JsonFile (map json_repo rs))))
       \<and> (checkpoint_current st \<longrightarrow> checkpoint_current st')"
proof -
  obtain b1 s1 where bs: "batch_start E query sort_by st = (b1, s1)"
    by (cases "batch_start E query sort_by st")
  have reached: "\<exists>rs. repos st' = Some rs
                  \<and> files st' ''repos.json'' = Some (JsonFile (map json_repo rs))"
    if "b1 = None"
  proof -
    from that bs obtain rs where "repos s1 = Some rs"
      using batch_start_assigns by blast
    moreover from that bs assms have "batch_finally (batch_try E s1) = (c, st')"
      by (simp add: doBatch_def)
    ultimately show ?thesis by (rule batch_saved)
  qed
  have kept: "checkpoint_current st'" if "checkpoint_current st"
  proof (cases b1)
    case None
    from reached[OF this] show ?thesis by (auto simp: checkpoint_current_def)
  next
    case (Some e)
    with bs discovery_failure_leaves_checkpoint[of E query sort_by st e s1] assms
    have "st' = s1" "files s1 = files st" "repos s1 = repos st" by simp_all
    with that show ?thesis by (auto simp: checkpoint_current_def split: option.splits)
  qed
  have traced: "list_all2 keeps_collected rs0 rs1
              \<and> list_all2 keeps_collected (valid_repos rs1) rs2
              \<and> (\<forall>e. e1 = Some e \<longrightarrow>
                    c = Threw e \<and> repos st' = Some rs1
                    \<and> files st' ''repos.json'' = Some (JsonFile (map json_repo rs1)))
              \<and> (e1 = None \<longrightarrow>
                    repos st' = Some rs2
                    \<and> files st' ''repos.json'' = Some (JsonFile (map json_repo rs2))
                    \<and> (\<forall>e. e2 = Some e \<longrightarrow> c = Threw e))"
    if start: "batch_start E query sort_by st = (None, st1)" and r0: "repos st1 = Some rs0"
      and cnt: "getContributorCounts E rs0 (requests st1) = (e1, rs1, w1)"
      and det: "getDetails E (valid_repos rs1) w1 = (e2, rs2, w2)"
  proof -
    from start assms have bf: "batch_finally (batch_try E st1) = (c, st')"
      by (simp add: doBatch_def)
    have k1: "list_all2 keeps_collected rs0 rs1"
      using cnt by (rule getContributorCounts_keeps)
    have k2: "list_all2 keeps_collected (valid_repos rs1) rs2"
      using det by (rule getDetails_keeps)
    have t1: "c = Threw e \<and> repos st' = Some rs1
                    \<and> files st' ''repos.json'' = Some (JsonFile (map json_repo rs1))"
      if "e1 = Some e" for e
      using batch_count_throw[OF r0 _ bf, of e rs1 w1] cnt that by simp
    have t2: "repos st' = Some rs2
                    \<and> files st' ''repos.json'' = Some (JsonFile (map json_repo rs2))"
      if "e1 = None"
      using batch_after_counts[OF r0 _ det bf] cnt that by simp
    have t3: "c = Threw e" if "e1 = None" "e2 = Some e" for e
      using batch_details_throw[OF r0 _ _ bf, of rs1 w1 e rs2 w2] cnt det that by simp
    from k1 k2 t1 t2 t3 show ?thesis by blast
  qed
  from traced reached kept bs show ?thesis by simp
qed

text \<open>
  Two batches in the demonstration world. On the first checkpoint the count of
  \<open>octo/solo\<close> is collected and then the landing page of \<open>octo/ghost\<close> makes the count
  collector throw: both records are saved, \<open>octo/solo\<close> with its count. On the second
  the count collector runs through, \<open>octo/zero\<close> is filtered out, and the workflow
  collector throws: \<open>octo/solo\<close> is saved with its count.
\<close>

theorem checkpoint_saved_whatever_happens_witness:
  "fst (doBatch demo_env JUndefined JUndefined ghost_checkpoint) = Threw FetchFailure
   \<and> repos (snd (doBatch demo_env JUndefined JUndefined ghost_checkpoint))
       = Some [(octo ''solo'')(''contributor_count'' \<mapsto> JNum (Num 1)), octo ''ghost'']
   \<and> files (snd (doBatch demo_env JUndefined JUndefined ghost_checkpoint)) ''repos.json''
       = Some (JsonFile (map json_repo
           [(octo ''solo'')(''contributor_count'' \<mapsto> JNum (Num 1)), octo ''ghost'']))
   \<and> fst (doBatch demo_env JUndefined JUndefined demo_checkpoint) = Threw FetchFailure
   \<and> repos (snd (doBatch demo_env JUndefined JUndefined demo_checkpoint))
       = Some [(octo ''solo'')(''contributor_count'' \<mapsto> JNum (Num 1))]
   \<and> files (snd (doBatch demo_env JUndefined JUndefined demo_checkpoint)) ''repos.json''
       = Some (JsonFile (map json_repo
           [(octo ''solo'')(''contributor_count'' \<mapsto> JNum (Num 1))]))
   \<and> checkpoint_current (snd (doBatch demo_env JUndefined JUndefined demo_checkpoint))"
proof -
  let ?solo1 = "(octo ''solo'')(''contributor_count'' \<mapsto> JNum (Num 1))"
  let ?zero = "(octo ''zero'')(''contributor_count'' \<mapsto> JNum (Num 0))"
  let ?gst = "ghost_checkpoint\<lparr>repos := Some [octo ''solo'', octo ''ghost''], requests := []\<rparr>"
  let ?gw = "[Fetch GET (JStr ''https://www.github.com/octo/solo''),
              Fetch GET (JStr ''https://www.github.com/octo/ghost''),
              Fetch GET (JStr ''https://www.github.com/octo/ghost'')]"
  let ?gd = "getDetails demo_env (valid_repos [?solo1, octo ''ghost'']) ?gw"
  let ?gb = "doBatch demo_env JUndefined JUndefined ghost_checkpoint"
  have g1: "repos ?gst = Some [octo ''solo'', octo ''ghost'']" by simp
  have g2: "getContributorCounts demo_env [octo ''solo'', octo ''ghost''] (requests ?gst)
             = (Some FetchFailure, [?solo1, octo ''ghost''], ?gw)"
    by (simp add: ghost_counts)
  have g3: "?gd = (fst ?gd, fst (snd ?gd), snd (snd ?gd))" by simp
  have g4: "?gb = (fst ?gb, snd ?gb)" by simp
  from checkpoint_saved_whatever_happens[OF g4, of ?gst "[octo ''solo'', octo ''ghost'']"
         "Some FetchFailure" "[?solo1, octo ''ghost'']" ?gw "fst ?gd" "fst (snd ?gd)" "snd (snd ?gd)"]
       ghost_start g1 g2 g3
  have ghost: "fst ?gb = Threw FetchFailure \<and> repos (snd ?gb) = Some [?solo1, octo ''ghost'']
     \<and> files (snd ?gb) ''repos.json'' = Some (JsonFile (map json_repo [?solo1, octo ''ghost'']))"
    by blast
  let ?dst = "demo_checkpoint\<lparr>repos := Some [octo ''solo'', ?zero], requests := []\<rparr>"
  let ?dw = "[Fetch GET (JStr ''https://www.github.com/octo/solo'')]"
  let ?dw2 = "?dw @ [Fetch GET (JStr ''https://github.com/octo/solo/tree/undefined/.github/workflows''),
                      Fetch GET (JStr ''https://github.com/octo/solo/tree/undefined/.github/workflows'')]"
  let ?db = "doBatch demo_env JUndefined JUndefined demo_checkpoint"
  have d1: "repos ?dst = Some [octo ''solo'', ?zero]" by simp
  have d2: "getContributorCounts demo_env [octo ''solo'', ?zero] (requests ?dst)
             = (None, [?solo1, ?zero], ?dw)"
    by (simp add: demo_counts)
  have d3: "getDetails demo_env (valid_repos [?solo1, ?zero]) ?dw
             = (Some FetchFailure, [?solo1], ?dw2)"
    by (simp only: demo_valid demo_details)
  have d4: "?db = (fst ?db, snd ?db)" by simp
  have d5: "checkpoint_current demo_checkpoint"
    by (simp add: checkpoint_current_def demo_checkpoint_def empty_state_def)
  from checkpoint_saved_whatever_happens[OF d4, of ?dst "[octo ''solo'', ?zero]"
         None "[?solo1, ?zero]" ?dw "Some FetchFailure" "[?solo1]" ?dw2]
       demo_start d1 d2 d3 d5
  have demo: "fst ?db = Threw FetchFailure \<and> repos (snd ?db) = Some [?solo1]
     \<and> files (snd ?db) ''repos.json'' = Some (JsonFile (map json_repo [?solo1]))
     \<and> checkpoint_current (snd ?db)"
    by blast
  from ghost demo show ?thesis by blast
qed

text \<open>
  Claim C7. When the contributor-count collection of a batch has run through, the
  records whose count is not truthy are not in the filtered list; the list handed to
  \<^verbatim>\<open>getDetails\<close> is the filtered list, and after any number of the remaining collectors
  it still holds the same records with the same owner, name and count; the global
  list at the end of the batch is that list, it is what \<^verbatim>\<open>repos.json\<close> holds, every
  record saved there has a truthy count, and when the dataset is written it has one row
  per record of that list, with the record's count.
\<close>

theorem invalid_records_excluded:
  assumes "batch_start E query sort_by st = (None, st1)"
    and "repos st1 = Some rs0"
    and "getContributorCounts E rs0 (requests st1) = (None, rs1, w1)"
    and "doBatch E query sort_by st = (c, st')"
  shows "(\<forall>r\<in>set rs1. \<not> truthy (getp r ''contributor_count'') \<longrightarrow> r \<notin> set (valid_repos rs1))
       \<and> (\<exists>e2 rs2 w2.
            getDetails E (valid_repos rs1) w1 = (e2, rs2, w2)
            \<and> (\<forall>n e rs w. run_sequence E (take n details_sequence) (valid_repos rs1) w1 = (e, rs, w)
                  \<longrightarrow> map scored rs = map scored (valid_repos rs1))
            \<and> map scored rs2 = map scored (valid_repos rs1)
            \<and> repos st' = Some rs2
            \<and> files st' ''repos.json'' = Some (JsonFile (map json_repo rs2))
            \<and> list_all (\<lambda>r. truthy (getp r ''contributor_count'')) (map json_repo rs2)
            \<and> (c = Returned \<or> c = Exited \<longrightarrow>
                 (\<exists>ds. files st' ''github.arff'' = Some (ArffFile ds)
                       \<and> length (data_rows ds) = length rs2
                       \<and> map (\<lambda>x. lookup x ''contributor_count'') (data_rows ds)
                           = map (\<lambda>r. getp r ''contributor_count'') rs2)))"
proof -
  obtain e2 rs2 w2 where d: "getDetails E (valid_repos rs1) w1 = (e2, rs2, w2)"
    by (cases "getDetails E (valid_repos rs1) w1")
  from assms(1,4) have bf: "batch_finally (batch_try E st1) = (c, st')"
    by (simp add: doBatch_def)
  note after = batch_after_counts[OF assms(2) assms(3) d bf]
  have pre: "map scored rs = map scored (valid_repos rs1)"
    if "run_sequence E (take n details_sequence) (valid_repos rs1) w1 = (e, rs, w)" for n e rs w
    using run_sequence_scored[OF that details_without_counts] .
  have sc: "map scored rs2 = map scored (valid_repos rs1)"
    using pre[of "length details_sequence" e2 rs2 w2] d by (simp add: getDetails_def)
  have "list_all (\<lambda>r. truthy (getp r ''contributor_count'')) (valid_repos rs1)"
    by (simp add: valid_repos_def list_all_iff)
  with sc have "list_all (\<lambda>r. truthy (getp r ''contributor_count'')) rs2"
    by (rule scored_list_truthy)
  then have js: "list_all (\<lambda>r. truthy (getp r ''contributor_count'')) (map json_repo rs2)"
    by (simp add: list_all_iff truthy_json_repo)
  have gone: "\<forall>r\<in>set rs1. \<not> truthy (getp r ''contributor_count'') \<longrightarrow> r \<notin> set (valid_repos rs1)"
    by (simp add: valid_repos_def)
  have arff: "c = Returned \<or> c = Exited \<longrightarrow>
                 (\<exists>ds. files st' ''github.arff'' = Some (ArffFile ds)
                       \<and> length (data_rows ds) = length rs2
                       \<and> map (\<lambda>x. lookup x ''contributor_count'') (data_rows ds)
                           = map (\<lambda>r. getp r ''contributor_count'') rs2)"
  proof
    assume "c = Returned \<or> c = Exited"
    with after obtain ds where ds: "files st' ''github.arff'' = Some (ArffFile ds)"
      "arff_rows E rs2 = Inr (data_rows ds)" by blast
    from ds(2) have "length (data_rows ds) = length rs2" by (rule arff_rows_length)
    moreover from ds(2) have "map (\<lambda>x. lookup x ''contributor_count'') (data_rows ds)
                           = map (\<lambda>r. getp r ''contributor_count'') rs2" by (rule arff_rows_count)
    ultimately show "\<exists>ds. files st' ''github.arff'' = Some (ArffFile ds)
                       \<and> length (data_rows ds) = length rs2
                       \<and> map (\<lambda>x. lookup x ''contributor_count'') (data_rows ds)
                           = map (\<lambda>r. getp r ''contributor_count'') rs2"
      using ds(1) by blast
  qed
  have saved: "repos st' = Some rs2" "files st' ''repos.json'' = Some (JsonFile (map json_repo rs2))"
    using after by simp_all
  from d pre sc saved js arff have "\<exists>e2 rs2 w2.
            getDetails E (valid_repos rs1) w1 = (e2, rs2, w2)
            \<and> (\<forall>n e rs w. run_sequence E (take n details_sequence) (valid_repos rs1) w1 = (e, rs, w)
                  \<longrightarrow> map scored rs = map scored (valid_repos rs1))
            \<and> map scored rs2 = map scored (valid_repos rs1)
            \<and> repos st' = Some rs2
            \<and> files st' ''repos.json'' = Some (JsonFile (map json_repo rs2))
            \<and> list_all (\<lambda>r. truthy (getp r ''contributor_count'')) (map json_repo rs2)
            \<and> (c = Returned \<or> c = Exited \<longrightarrow>
                 (\<exists>ds. files st' ''github.arff'' = Some (ArffFile ds)
                       \<and> length (data_rows ds) = length rs2
                       \<and> map (\<lambda>x. lookup x ''contributor_count'') (data_rows ds)
                           = map (\<lambda>r. getp r ''contributor_count'') rs2))"
    by blast
  with gone show ?thesis by (rule conjI)
qed

text \<open>
  On the demonstration checkpoint \<open>octo/zero\<close> is dropped and \<open>octo/solo\<close>, counted 1, is
  the only record saved.
\<close>

theorem invalid_records_excluded_witness:
  "\<exists>rs2. repos (snd (doBatch demo_env JUndefined JUndefined demo_checkpoint)) = Some rs2
         \<and> files (snd (doBatch demo_env JUndefined JUndefined demo_checkpoint)) ''repos.json''
             = Some (JsonFile (map json_repo rs2))
         \<and> map scored rs2 = [scored ((octo ''solo'')(''contributor_count'' \<mapsto> JNum (Num 1)))]"
proof -
  have b: "repos (demo_checkpoint\<lparr>repos :=
                 Some [octo ''solo'', (octo ''zero'')(''contributor_count'' \<mapsto> JNum (Num 0))],
                 requests := []\<rparr>)
           = Some [octo ''solo'', (octo ''zero'')(''contributor_count'' \<mapsto> JNum (Num 0))]"
    by simp
  have c: "getContributorCounts demo_env
             [octo ''solo'', (octo ''zero'')(''contributor_count'' \<mapsto> JNum (Num 0))]
             (requests (demo_checkpoint\<lparr>repos :=
                 Some [octo ''solo'', (octo ''zero'')(''contributor_count'' \<mapsto> JNum (Num 0))],
                 requests := []\<rparr>)) =
           (None,
            [(octo ''solo'')(''contributor_count'' \<mapsto> JNum (Num 1)),
             (octo ''zero'')(''contributor_count'' \<mapsto> JNum (Num 0))],
            [Fetch GET (JStr ''https://www.github.com/octo/solo'')])"
    by (simp add: demo_counts)
  have d: "doBatch demo_env JUndefined JUndefined demo_checkpoint =
             (fst (doBatch demo_env JUndefined JUndefined demo_checkpoint),
              snd (doBatch demo_env JUndefined JUndefined demo_checkpoint))"
    by simp
  from invalid_records_excluded[OF demo_start b c d] obtain rs2 where
    "map scored rs2 = map scored (valid_repos
        [(octo ''solo'')(''contributor_count'' \<mapsto> JNum (Num 1)),
         (octo ''zero'')(''contributor_count'' \<mapsto> JNum (Num 0))])"
    "repos (snd (doBatch demo_env JUndefined JUndefined demo_checkpoint)) = Some rs2"
    "files (snd (doBatch demo_env JUndefined JUndefined demo_checkpoint)) ''repos.json''
       = Some (JsonFile (map json_repo rs2))"
    by blast
  then show ?thesis by (simp add: demo_valid)
qed

section \<open>A failed environments listing\<close>

lemma getEnvironments_fails:
  assumes "\<not> hasOwnProperty r ''environments''"
    and "api E (length w) (ApiAllEnvironments (getp r ''owner'') (getp r ''repo'')) = Inl st"
  shows "getEnvironments_repo E r w =
           (None, r(''environments'' \<mapsto> JArr []),
            w @ [ApiCall (ApiAllEnvironments (getp r ''owner'') (getp r ''repo''))])"
  using assms by (simp add: getEnvironments_repo_def octokit_def)

lemma getp_present: "r k = Some v \<Longrightarrow> getp r k = v"
  by (simp add: getp_def)

text \<open>
  Claim C9. When the environments listing fails, with any error, on a record that has
  no \<open>environments\<close> yet, \<^verbatim>\<open>getEnvironments\<close> assigns the empty list and throws
  nothing. From then on, whatever else is assigned to the record: \<^verbatim>\<open>getEnvironments\<close>
  skips it (the listing is never retried); \<^verbatim>\<open>getFundingFiles\<close>, which runs in between,
  leaves the empty list in place; and \<^verbatim>\<open>getDeployments\<close> issues no request (the world is
  unchanged) and assigns \<open>has_deployments\<close> false - unless the attribute was there
  already, when it is skipped as every collected attribute is.
\<close>

theorem environments_error_becomes_no_deployments:
  "(\<not> hasOwnProperty r ''environments''
      \<and> api E (length w) (ApiAllEnvironments (getp r ''owner'') (getp r ''repo'')) = Inl st
    \<longrightarrow> getEnvironments_repo E r w =
          (None, r(''environments'' \<mapsto> JArr []),
           w @ [ApiCall (ApiAllEnvironments (getp r ''owner'') (getp r ''repo''))]))
   \<and> (r2 ''environments'' = Some (JArr []) \<longrightarrow>
         getEnvironments_repo E r2 w2 = (None, r2, w2)
         \<and> getDeployments_repo E r2 w2 =
             (None,
              if hasOwnProperty r2 ''has_deployments'' then r2
              else r2(''has_deployments'' \<mapsto> JBool False),
              w2)
         \<and> (getFundingFiles_repo E r2 w2 = (e, r3, w3) \<longrightarrow> r3 ''environments'' = Some (JArr [])))"
proof -
  have 1: "\<not> hasOwnProperty r ''environments''
      \<and> api E (length w) (ApiAllEnvironments (getp r ''owner'') (getp r ''repo'')) = Inl st
    \<longrightarrow> getEnvironments_repo E r w =
          (None, r(''environments'' \<mapsto> JArr []),
           w @ [ApiCall (ApiAllEnvironments (getp r ''owner'') (getp r ''repo''))])"
    using getEnvironments_fails by blast
  have 2: "getEnvironments_repo E r2 w2 = (None, r2, w2)" if "r2 ''environments'' = Some (JArr [])"
    using that by (simp add: getEnvironments_repo_def hasOwnProperty_def)
  have 3: "getDeployments_repo E r2 w2 =
             (None,
              if hasOwnProperty r2 ''has_deployments'' then r2
              else r2(''has_deployments'' \<mapsto> JBool False),
              w2)" if "r2 ''environments'' = Some (JArr [])"
    using getDeployments_no_environments[of r2 E w2] getp_present[of r2 "''environments''"] that
    by simp
  have 4: "r3 ''environments'' = Some (JArr [])"
    if "r2 ''environments'' = Some (JArr [])" "getFundingFiles_repo E r2 w2 = (e, r3, w3)"
    using collector_step_frame[of E GetFundingFiles r2 w2 e r3 w3 "''environments''"] that
    by simp
  from 1 2 3 4 show ?thesis by blast
qed

text \<open>In the demonstration world the API always fails: \<open>octo/solo\<close> ends without deployments.\<close>

theorem environments_error_becomes_no_deployments_witness:
  "getEnvironments_repo demo_env (octo ''solo'') [] =
     (None, (octo ''solo'')(''environments'' \<mapsto> JArr []),
      [ApiCall (ApiAllEnvironments (JStr ''octo'') (JStr ''solo''))])
   \<and> getDeployments_repo demo_env ((octo ''solo'')(''environments'' \<mapsto> JArr []))
        [ApiCall (ApiAllEnvironments (JStr ''octo'') (JStr ''solo''))] =
     (None, (octo ''solo'')(''environments'' \<mapsto> JArr [], ''has_deployments'' \<mapsto> JBool False),
      [ApiCall (ApiAllEnvironments (JStr ''octo'') (JStr ''solo''))])"
  using environments_error_becomes_no_deployments
          [of "octo ''solo''" demo_env "[]" None "(octo ''solo'')(''environments'' \<mapsto> JArr [])"
              "[ApiCall (ApiAllEnvironments (JStr ''octo'') (JStr ''solo''))]"]
  by (simp add: hasOwnProperty_def octo_simps demo_env_simps getp_def)

section \<open>The invalid-record filter and the contributor count\<close>

lemma valid_repos_mem:
  "rp \<in> set (valid_repos rs) \<longleftrightarrow> rp \<in> set rs \<and> truthy (getp rp ''contributor_count'')"
  by (simp add: valid_repos_def)

lemma getContributorCounts_scrape:
  assumes "\<not> hasOwnProperty r ''contributor_count''"
    and "fetchWithRetryAndLogging E (landing_page E r) GET w = (Inr resp, w')"
    and "status resp = 200"
  shows "getContributorCounts_repo E r w =
     (None,
      r(''contributor_count'' \<mapsto>
          (case select_html E (body resp) (contributors_link E r) of
             None \<Rightarrow> JNum (Num 1)
           | Some h \<Rightarrow> JNum (toNumber E (trim E h)))),
      w')"
  using assms by (simp add: getContributorCounts_repo_def split: option.splits)

text \<open>
  Claim C10. The invalid-record filter keeps a record exactly when its
  \<open>contributor_count\<close> is truthy: a record whose count is 0, is \<open>NaN\<close>, or is missing is
  removed alike. When the landing page is fetched with status 200 for a record not
  yet counted, \<^verbatim>\<open>getContributorCounts\<close> assigns exactly 1 if the sidebar element is
  absent, and otherwise the number the sidebar text converts to, whatever it is.
\<close>

theorem invalid_filter_tests_truthiness:
  "(rp \<in> set (valid_repos rs) \<longleftrightarrow> rp \<in> set rs \<and> truthy (getp rp ''contributor_count''))
   \<and> (rp ''contributor_count'' = Some (JNum (Num 0)) \<longrightarrow> rp \<notin> set (valid_repos rs))
   \<and> (rp ''contributor_count'' = Some (JNum NaN) \<longrightarrow> rp \<notin> set (valid_repos rs))
   \<and> (rp ''contributor_count'' = None \<longrightarrow> rp \<notin> set (valid_repos rs))
   \<and> (\<not> hasOwnProperty r ''contributor_count''
        \<and> fetchWithRetryAndLogging E (landing_page E r) GET w = (Inr resp, w')
        \<and> status resp = 200
       \<longrightarrow> (select_html E (body resp) (contributors_link E r) = None \<longrightarrow>
              getContributorCounts_repo E r w =
                (None, r(''contributor_count'' \<mapsto> JNum (Num 1)), w'))
           \<and> (select_html E (body resp) (contributors_link E r) = Some h \<longrightarrow>
              getContributorCounts_repo E r w =
                (None, r(''contributor_count'' \<mapsto> JNum (toNumber E (trim E h))), w')))"
proof -
  have 1: "rp ''contributor_count'' = Some (JNum (Num 0)) \<longrightarrow> rp \<notin> set (valid_repos rs)"
    by (simp add: valid_repos_mem getp_def)
  have 2: "rp ''contributor_count'' = Some (JNum NaN) \<longrightarrow> rp \<notin> set (valid_repos rs)"
    by (simp add: valid_repos_mem getp_def)
  have 3: "rp ''contributor_count'' = None \<longrightarrow> rp \<notin> set (valid_repos rs)"
    by (simp add: valid_repos_mem getp_def)
  have 4: "\<not> hasOwnProperty r ''contributor_count''
        \<and> fetchWithRetryAndLogging E (landing_page E r) GET w = (Inr resp, w')
        \<and> status resp = 200
       \<longrightarrow> (select_html E (body resp) (contributors_link E r) = None \<longrightarrow>
              getContributorCounts_repo E r w =
                (None, r(''contributor_count'' \<mapsto> JNum (Num 1)), w'))
           \<and> (select_html E (body resp) (contributors_link E r) = Some h \<longrightarrow>
              getContributorCounts_repo E r w =
                (None, r(''contributor_count'' \<mapsto> JNum (toNumber E (trim E h))), w'))"
    using getContributorCounts_scrape[of r E w resp w'] by simp
  from valid_repos_mem 1 2 3 4 show ?thesis by blast
qed

lemma demo_many_page:
  "fetchWithRetryAndLogging demo_env (landing_page demo_env (octo ''many'')) GET w =
     (Inr (page 200 ''many''), w @ [Fetch GET (JStr ''https://www.github.com/octo/many'')])"
  by (simp add: fetchWithRetryAndLogging_def fetch_def landing_page_def repo_path_def getp_def
        octo_simps demo_env_simps)

text \<open>
  \<open>octo/solo\<close> has no sidebar figure and is counted 1; the figure \<open>1,234\<close> of \<open>octo/many\<close>
  is no number, and the filter drops it together with a record counted 0.
\<close>

theorem invalid_filter_tests_truthiness_witness:
  "getContributorCounts_repo demo_env (octo ''solo'') [] =
     (None, (octo ''solo'')(''contributor_count'' \<mapsto> JNum (Num 1)),
      [Fetch GET (JStr ''https://www.github.com/octo/solo'')])
   \<and> getContributorCounts_repo demo_env (octo ''many'') [] =
     (None, (octo ''many'')(''contributor_count'' \<mapsto> JNum NaN),
      [Fetch GET (JStr ''https://www.github.com/octo/many'')])
   \<and> valid_repos [(octo ''many'')(''contributor_count'' \<mapsto> JNum NaN),
                  (octo ''zero'')(''contributor_count'' \<mapsto> JNum (Num 0)),
                  (octo ''solo'')(''contributor_count'' \<mapsto> JNum (Num 1))]
       = [(octo ''solo'')(''contributor_count'' \<mapsto> JNum (Num 1))]"
proof -
  have 1: "getContributorCounts_repo demo_env (octo ''solo'') [] =
     (None, (octo ''solo'')(''contributor_count'' \<mapsto> JNum (Num 1)),
      [Fetch GET (JStr ''https://www.github.com/octo/solo'')])"
    using invalid_filter_tests_truthiness
            [of "octo ''solo''" "[]" "octo ''solo''" demo_env "[]" "page 200 ''solo''"
                "[Fetch GET (JStr ''https://www.github.com/octo/solo'')]" "[]"]
    by (simp add: demo_solo_page hasOwnProperty_def octo_simps demo_env_simps page_def)
  have 2: "getContributorCounts_repo demo_env (octo ''many'') [] =
     (None, (octo ''many'')(''contributor_count'' \<mapsto> JNum NaN),
      [Fetch GET (JStr ''https://www.github.com/octo/many'')])"
    using invalid_filter_tests_truthiness
            [of "octo ''many''" "[]" "octo ''many''" demo_env "[]" "page 200 ''many''"
                "[Fetch GET (JStr ''https://www.github.com/octo/many'')]" "''1,234''"]
    by (simp add: demo_many_page hasOwnProperty_def octo_simps demo_env_simps page_def)
  have 3: "valid_repos [(octo ''many'')(''contributor_count'' \<mapsto> JNum NaN),
                  (octo ''zero'')(''contributor_count'' \<mapsto> JNum (Num 0)),
                  (octo ''solo'')(''contributor_count'' \<mapsto> JNum (Num 1))]
       = [(octo ''solo'')(''contributor_count'' \<mapsto> JNum (Num 1))]"
    by (simp add: valid_repos_def getp_def)
  from 1 2 3 show ?thesis by simp
qed

section \<open>Rate limits\<close>

lemma onRateLimit_retry: "snd (onRateLimit retryAfter retryCount) = (retryCount \<le> 2)"
  by (simp add: onRateLimit_def)

lemma onRateLimit_sleep: "fst (onRateLimit retryAfter retryCount) = (if retryAfter < 10 then 1000 else 0)"
  by (simp add: onRateLimit_def)

text \<open>
  Two rate-limit signals and then an answer: the answer is returned after exactly two
  retry delays. An abuse signal is never retried.
\<close>

lemma rate_limit_recovery:
  "throttled_request (\<lambda>k. if k < 2 then RateLimited retryAfter else Answered data) 0 [] =
     (Inr data, 3, replicate 2 ((if retryAfter < 10 then 1000 else 0) + 1000 * retryAfter))"
  by (simp add: onRateLimit_def numeral_2_eq_2)

lemma abuse_never_retried:
  "throttled_request (\<lambda>k. AbuseDetected retryAfter) 0 [] = (Inl (ApiError (Some 403)), 1, [])"
  by (simp add: onAbuseLimit_def)

text \<open>
  Claim C6, at a request that meets the primary rate-limit signal on every attempt.
  The hook sleeps one extra second when the indicated wait is under ten seconds and the
  plugin then waits the indicated time, as the claim says. But the hook asks for a
  retry while \<open>retryCount\<close> is at most 2, that is at 0, 1 and 2: the request is
  sent four times, with three retry delays, before the error surfaces. The claim,
  like the comment above the test in the source (\<^verbatim>\<open>Retry twice after hitting a rate
  limit error, then give up\<close>), says two retries.
\<close>

theorem rate_limit_retries_three_times:
  "snd (onRateLimit retryAfter 0) \<and> snd (onRateLimit retryAfter 1)
   \<and> snd (onRateLimit retryAfter 2) \<and> \<not> snd (onRateLimit retryAfter 3)
   \<and> throttled_request (\<lambda>k. RateLimited retryAfter) 0 [] =
       (Inl (ApiError (Some 403)), 4,
        replicate 3 ((if retryAfter < 10 then 1000 else 0) + 1000 * retryAfter))"
  by (simp add: onRateLimit_def numeral_3_eq_3)

end
